theory Spec2Isabelle
  imports Main "HOL-Library.Word" "HOL-Library.Sublist"
begin

section \<open>JavaScript values used by \<^verbatim>\<open>src/core.js\<close>\<close>

text \<open>
  A JavaScript string is a sequence of 16-bit code units. String literals of the source
  are ASCII; \<open>lit\<close> turns an ASCII literal into its code units.
\<close>

type_synonym jschar = "16 word"
type_synonym jsstring = "jschar list"

definition lit :: "string \<Rightarrow> jsstring" where
  "lit s = map of_char s"

text \<open>
  The numbers of the model are the safe integers (\<^verbatim>\<open>Number.isSafeInteger\<close>): every
  integer of absolute value at most \<open>2^53 - 1\<close> is a Number value, and its ToString is
  its decimal expansion. Larger numbers (which ToString rounds to seventeen digits, or
  prints with an exponent from \<open>10^21\<close> on), fractions, \<open>NaN\<close> and the infinities are
  outside the model; the documented parameters are \<^verbatim>\<open>Int\<close>s.
\<close>

typedef safeint = "{n :: int. - 9007199254740991 \<le> n \<and> n \<le> 9007199254740991}"
  morphisms intOf SafeInt
  by (rule exI [of _ 0]) simp

text \<open>
  The data values a caller can pass to the builder's methods: \<^verbatim>\<open>undefined\<close>, \<^verbatim>\<open>null\<close>,
  booleans, numbers, strings, and arrays of data values. No conversion of a data value
  throws. Symbols and objects other than arrays, whose conversions can throw, are added
  in the second part of this theory; big integers are outside the model.
\<close>

datatype jsval =
    JUndefined
  | JNull
  | JBool bool
  | JNum safeint
  | JStr jsstring
  | JArr "jsval list"

text \<open>\<^verbatim>\<open>!!v\<close>: ToBoolean. Every object, hence every array, is truthy.\<close>

fun truthy :: "jsval \<Rightarrow> bool" where
  "truthy JUndefined = False"
| "truthy JNull = False"
| "truthy (JBool b) = b"
| "truthy (JNum n) = (intOf n \<noteq> 0)"
| "truthy (JStr s) = (s \<noteq> [])"
| "truthy (JArr xs) = True"

text \<open>The decimal expansion of a safe integer: its Number::toString.\<close>

definition digitChar :: "nat \<Rightarrow> jschar" where
  "digitChar d = 0x30 + of_nat d"

fun natToString :: "nat \<Rightarrow> jsstring" where
  "natToString n =
     (if n < 10 then [digitChar n] else natToString (n div 10) @ [digitChar (n mod 10)])"

declare natToString.simps [simp del]

definition numberToString :: "safeint \<Rightarrow> jsstring" where
  "numberToString n =
     (if intOf n < 0 then lit ''-'' @ natToString (nat (- intOf n))
      else natToString (nat (intOf n)))"

text \<open>\<^verbatim>\<open>Array.prototype.join\<close> on strings.\<close>

fun joinWith :: "jsstring \<Rightarrow> jsstring list \<Rightarrow> jsstring" where
  "joinWith sep [] = []"
| "joinWith sep [x] = x"
| "joinWith sep (x # y # ys) = x @ sep @ joinWith sep (y # ys)"

text \<open>
  ToString, as the \<^verbatim>\<open>+\<close> operator applies it to the operand of a string concatenation.
  An array converts through \<^verbatim>\<open>join(",")\<close>, where \<^verbatim>\<open>undefined\<close> and \<^verbatim>\<open>null\<close> elements
  give the empty string.
\<close>

fun toString :: "jsval \<Rightarrow> jsstring" where
  "toString JUndefined = lit ''undefined''"
| "toString JNull = lit ''null''"
| "toString (JBool b) = (if b then lit ''true'' else lit ''false'')"
| "toString (JNum n) = numberToString n"
| "toString (JStr s) = s"
| "toString (JArr xs) =
     joinWith (lit '','')
       (map (\<lambda>x. if x = JUndefined \<or> x = JNull then [] else toString x) xs)"

text \<open>
  \<^verbatim>\<open>v == "literal"\<close> for the literals of the source (\<^verbatim>\<open>"daily"\<close>, \<^verbatim>\<open>"weekly"\<close>,
  \<^verbatim>\<open>"perRequest"\<close>, \<^verbatim>\<open>"featured"\<close>), none of which converts to a number: a string is
  compared as it is, an array through its ToString, and \<^verbatim>\<open>undefined\<close>, \<^verbatim>\<open>null\<close>,
  booleans and numbers are never equal to such a literal.
\<close>

fun looseEqLit :: "jsval \<Rightarrow> jsstring \<Rightarrow> bool" where
  "looseEqLit (JStr s) l = (s = l)"
| "looseEqLit (JArr xs) l = (toString (JArr xs) = l)"
| "looseEqLit v l = False"


section \<open>String operations used by the keyword setter\<close>

text \<open>\<^verbatim>\<open>String.prototype.split\<close> with a separator of one code unit: the empty string
  splits into one empty piece.\<close>

fun split :: "jschar \<Rightarrow> jsstring \<Rightarrow> jsstring list" where
  "split c [] = [[]]"
| "split c (x # xs) =
     (if x = c then [] # split c xs
      else (case split c xs of [] \<Rightarrow> [[x]] | r # rs \<Rightarrow> (x # r) # rs))"

text \<open>
  \<^verbatim>\<open>String.prototype.trim\<close> removes WhiteSpace and LineTerminator code points from both
  ends: TAB, LF, VT, FF, CR, SP, NBSP, the other space separators of Unicode, LS, PS and
  the byte order mark.
\<close>

definition isWhiteSpace :: "jschar \<Rightarrow> bool" where
  "isWhiteSpace c =
     (c \<in> set [0x9, 0xA, 0xB, 0xC, 0xD, 0x20, 0xA0, 0x1680,
               0x2000, 0x2001, 0x2002, 0x2003, 0x2004, 0x2005, 0x2006, 0x2007,
               0x2008, 0x2009, 0x200A, 0x2028, 0x2029, 0x202F, 0x205F, 0x3000, 0xFEFF])"

definition trim :: "jsstring \<Rightarrow> jsstring" where
  "trim s = rev (dropWhile isWhiteSpace (rev (dropWhile isWhiteSpace s)))"

datatype error = TypeError | URIError

text \<open>
  \<^verbatim>\<open>encodeURI\<close>: the code units of \<open>uriUnescapedSet\<close> (reserved and unescaped URI
  characters and \<^verbatim>\<open>#\<close>) are kept; any other code point is written as the
  percent-escaped octets of its UTF-8 encoding; an unpaired surrogate throws a URIError.
\<close>

definition uriUnescapedSet :: jsstring where
  "uriUnescapedSet =
     lit ''ABCDEFGHIJKLMNOPQRSTUVWXYZabcdefghijklmnopqrstuvwxyz0123456789;/?:@&=+$,-_.!~*()#''
     @ [0x27]"

definition isLeadSurrogate :: "jschar \<Rightarrow> bool" where
  "isLeadSurrogate c = (0xD800 \<le> c \<and> c \<le> 0xDBFF)"

definition isTrailSurrogate :: "jschar \<Rightarrow> bool" where
  "isTrailSurrogate c = (0xDC00 \<le> c \<and> c \<le> 0xDFFF)"

definition utf8 :: "nat \<Rightarrow> nat list" where
  "utf8 cp =
     (if cp < 0x80 then [cp]
      else if cp < 0x800 then [0xC0 + cp div 0x40, 0x80 + cp mod 0x40]
      else if cp < 0x10000 then
        [0xE0 + cp div 0x1000, 0x80 + (cp div 0x40) mod 0x40, 0x80 + cp mod 0x40]
      else
        [0xF0 + cp div 0x40000, 0x80 + (cp div 0x1000) mod 0x40,
         0x80 + (cp div 0x40) mod 0x40, 0x80 + cp mod 0x40])"

definition hexDigit :: "nat \<Rightarrow> jschar" where
  "hexDigit d = (if d < 10 then 0x30 + of_nat d else 0x41 + of_nat (d - 10))"

definition percentOctet :: "nat \<Rightarrow> jsstring" where
  "percentOctet b = [0x25, hexDigit (b div 16), hexDigit (b mod 16)]"

definition escapeCodePoint :: "nat \<Rightarrow> jsstring" where
  "escapeCodePoint cp = concat (map percentOctet (utf8 cp))"

definition pairCodePoint :: "jschar \<Rightarrow> jschar \<Rightarrow> nat" where
  "pairCodePoint c d = (unat c - 0xD800) * 0x400 + (unat d - 0xDC00) + 0x10000"

definition prepend :: "jsstring \<Rightarrow> error + jsstring \<Rightarrow> error + jsstring" where
  "prepend p r = (case r of Inl e \<Rightarrow> Inl e | Inr s \<Rightarrow> Inr (p @ s))"

fun encodeURI :: "jsstring \<Rightarrow> error + jsstring" where
  "encodeURI [] = Inr []"
| "encodeURI (c # cs) =
     (if c \<in> set uriUnescapedSet then prepend [c] (encodeURI cs)
      else if isTrailSurrogate c then Inl URIError
      else if \<not> isLeadSurrogate c then prepend (escapeCodePoint (unat c)) (encodeURI cs)
      else (case cs of
              [] \<Rightarrow> Inl URIError
            | d # ds \<Rightarrow>
                if isTrailSurrogate d
                then prepend (escapeCodePoint (pairCodePoint c d)) (encodeURI ds)
                else Inl URIError))"

section \<open>The builder\<close>

text \<open>
  The constructor (\<^verbatim>\<open>core.js\<close>, lines 4 to 12) and the fields of the object.
  \<^verbatim>\<open>this.dimensions\<close> is an object whose \<^verbatim>\<open>width\<close> and \<^verbatim>\<open>height\<close> properties read as
  \<^verbatim>\<open>undefined\<close> until they are written. \<^verbatim>\<open>id\<close>, \<^verbatim>\<open>username\<close>, \<^verbatim>\<open>category\<close>,
  \<^verbatim>\<open>collection\<close> and \<^verbatim>\<open>keywords\<close> are properties the constructor does not create:
  they read as \<^verbatim>\<open>undefined\<close> until a setter writes them.
\<close>

text \<open>The fields are the same in both parts of this theory; \<open>'v\<close> is the type of the
  values a caller passes, here the data values.\<close>

record 'v dims =
  width :: 'v
  height :: 'v

record 'v photo =
  version :: jsstring
  url :: jsstring
  dimensions :: "'v dims"
  scope :: jsstring
  randomizationInterval :: 'v
  id_field :: 'v
  username :: 'v
  category :: 'v
  collection :: 'v
  keywords_field :: 'v

type_synonym UnsplashPhoto = "jsval photo"

definition new_UnsplashPhoto :: UnsplashPhoto where
  "new_UnsplashPhoto =
     \<lparr> version = lit ''1.0.0'',
       url = lit ''https://source.unsplash.com'',
       dimensions = \<lparr> width = JUndefined, height = JUndefined \<rparr>,
       scope = lit ''all'',
       randomizationInterval = JStr (lit ''perRequest''),
       id_field = JUndefined,
       username = JUndefined,
       category = JUndefined,
       collection = JUndefined,
       keywords_field = JUndefined \<rparr>"

subsection \<open>Setters\<close>

text \<open>
  The setters \<^verbatim>\<open>find\<close>, \<^verbatim>\<open>width\<close>, \<^verbatim>\<open>height\<close>, \<^verbatim>\<open>size\<close>, \<^verbatim>\<open>randomize\<close>, \<^verbatim>\<open>featured\<close>
  (lines 19 to 96) and \<^verbatim>\<open>fromUser\<close>, \<^verbatim>\<open>fromCategory\<close>, \<^verbatim>\<open>fromCollection\<close> (lines 127 to
  153). Each returns \<^verbatim>\<open>this\<close>; the model returns the updated object. A method whose name
  is taken in HOL, or by a field, carries the suffix \<open>_m\<close>; the fields \<^verbatim>\<open>id\<close> and
  \<^verbatim>\<open>keywords\<close> carry the suffix \<open>_field\<close>.
\<close>

definition find_m :: "jsval \<Rightarrow> UnsplashPhoto \<Rightarrow> UnsplashPhoto" where
  "find_m i this = this\<lparr>id_field := i\<rparr>"

definition width_m :: "jsval \<Rightarrow> UnsplashPhoto \<Rightarrow> UnsplashPhoto" where
  "width_m w this = this\<lparr>dimensions := (dimensions this)\<lparr>width := w\<rparr>\<rparr>"

definition height_m :: "jsval \<Rightarrow> UnsplashPhoto \<Rightarrow> UnsplashPhoto" where
  "height_m h this = this\<lparr>dimensions := (dimensions this)\<lparr>height := h\<rparr>\<rparr>"

text \<open>\<^verbatim>\<open>height || width\<close>: the first operand if it is truthy, the second otherwise. An
  omitted argument is \<^verbatim>\<open>undefined\<close>.\<close>

definition size_m :: "jsval \<Rightarrow> jsval \<Rightarrow> UnsplashPhoto \<Rightarrow> UnsplashPhoto" where
  "size_m w h this =
     this\<lparr>dimensions := \<lparr> width = w, height = (if truthy h then h else w) \<rparr>\<rparr>"

definition randomize :: "jsval \<Rightarrow> UnsplashPhoto \<Rightarrow> UnsplashPhoto" where
  "randomize interval this =
     (if looseEqLit interval (lit ''daily'') \<or> looseEqLit interval (lit ''weekly'')
      then this\<lparr>randomizationInterval := interval\<rparr>
      else this\<lparr>randomizationInterval := JStr (lit ''perRequest'')\<rparr>)"

definition featured :: "UnsplashPhoto \<Rightarrow> UnsplashPhoto" where
  "featured this = this\<lparr>scope := lit ''featured''\<rparr>"

definition fromUser :: "jsval \<Rightarrow> UnsplashPhoto \<Rightarrow> UnsplashPhoto" where
  "fromUser u this = this\<lparr>username := u\<rparr>"

definition fromCategory :: "jsval \<Rightarrow> UnsplashPhoto \<Rightarrow> UnsplashPhoto" where
  "fromCategory c this = this\<lparr>category := c\<rparr>"

definition fromCollection :: "jsval \<Rightarrow> UnsplashPhoto \<Rightarrow> UnsplashPhoto" where
  "fromCollection collectionId this = this\<lparr>collection := collectionId\<rparr>"


subsection \<open>The keyword setter \<^verbatim>\<open>of\<close>\<close>

text \<open>
  Lines 103 to 120. An array is taken as it is; any other value has its \<^verbatim>\<open>split\<close> method called, which
  only a string has: on \<^verbatim>\<open>undefined\<close>, \<^verbatim>\<open>null\<close>, a boolean or a number the call throws
  a TypeError.
\<close>

definition keywordList :: "jsval \<Rightarrow> error + jsval list" where
  "keywordList kws =
     (case kws of
        JArr ks \<Rightarrow> Inr ks
      | JStr s \<Rightarrow> Inr (map JStr (split 0x2C s))
      | _ \<Rightarrow> Inl TypeError)"

text \<open>The \<^verbatim>\<open>forEach\<close> loop: \<^verbatim>\<open>keyword.trim()\<close> throws a TypeError at the first element
  that is not a string.\<close>

fun trimEach :: "jsval list \<Rightarrow> error + jsstring list" where
  "trimEach [] = Inr []"
| "trimEach (JStr s # ks) =
     (case trimEach ks of Inl e \<Rightarrow> Inl e | Inr ts \<Rightarrow> Inr (trim s # ts))"
| "trimEach (k # ks) = Inl TypeError"

text \<open>
  The result is \<open>Inr\<close> the updated object, or \<open>Inl\<close> the error thrown together with the
  object as the throw leaves it: \<^verbatim>\<open>this.keywords\<close> is assigned the joined string before
  \<^verbatim>\<open>encodeURI\<close> is called.
\<close>

definition of_m :: "jsval \<Rightarrow> UnsplashPhoto \<Rightarrow> error \<times> UnsplashPhoto + UnsplashPhoto" where
  "of_m kws this =
     (case keywordList kws of
        Inl e \<Rightarrow> Inl (e, this)
      | Inr ks \<Rightarrow>
          (case trimEach ks of
             Inl e \<Rightarrow> Inl (e, this)
           | Inr sanitizedKeywords \<Rightarrow>
               (let this1 = this\<lparr>keywords_field := JStr (joinWith (lit '','') sanitizedKeywords)\<rparr>
                in case encodeURI (toString (keywords_field this1)) of
                     Inl e \<Rightarrow> Inl (e, this1)
                   | Inr s \<Rightarrow> Inr (this1\<lparr>keywords_field := JStr s\<rparr>))))"

subsection \<open>Serialization\<close>

text \<open>
  Lines 159 to 214. The \<^verbatim>\<open>_append\<close> methods update \<^verbatim>\<open>this.url\<close> and return it; the
  model returns the returned string and the updated object.
\<close>

definition hasDimensions :: "UnsplashPhoto \<Rightarrow> bool" where
  "hasDimensions this =
     (truthy (width (dimensions this)) \<and> truthy (height (dimensions this)))"

definition appendDimensions :: "UnsplashPhoto \<Rightarrow> jsstring \<times> UnsplashPhoto" where
  "appendDimensions this =
     (let this1 =
        (if hasDimensions this
         then this\<lparr>url := url this @
                 (((lit ''/'' @ toString (width (dimensions this))) @ lit ''x'')
                    @ toString (height (dimensions this)))\<rparr>
         else this)
      in (url this1, this1))"

definition appendScope :: "UnsplashPhoto \<Rightarrow> jsstring \<times> UnsplashPhoto" where
  "appendScope this =
     (let this1 =
        (if scope this = lit ''featured''
         then this\<lparr>url := url this @ lit ''/featured''\<rparr>
         else this)
      in (url this1, this1))"

definition appendKeywords :: "UnsplashPhoto \<Rightarrow> jsstring \<times> UnsplashPhoto" where
  "appendKeywords this =
     (let this1 =
        (if truthy (keywords_field this)
         then this\<lparr>url := url this @ (lit ''?'' @ toString (keywords_field this))\<rparr>
         else this)
      in (url this1, this1))"

definition appendRandomization :: "bool \<Rightarrow> UnsplashPhoto \<Rightarrow> jsstring \<times> UnsplashPhoto" where
  "appendRandomization includeRandomPath this =
     (let this1 =
        (if includeRandomPath \<and> looseEqLit (randomizationInterval this) (lit ''perRequest'')
         then this\<lparr>url := url this @ lit ''/random''\<rparr>
         else if looseEqLit (randomizationInterval this) (lit ''daily'')
         then this\<lparr>url := url this @ lit ''/daily''\<rparr>
         else if looseEqLit (randomizationInterval this) (lit ''weekly'')
         then this\<lparr>url := url this @ lit ''/weekly''\<rparr>
         else this)
      in (url this1, this1))"

text \<open>Lines 220 to 258. \<^verbatim>\<open>fetch\<close> returns \<^verbatim>\<open>this.url\<close> after the appends of the first
  branch whose selector is truthy; the object keeps the extended \<^verbatim>\<open>url\<close>.\<close>

definition fetch :: "UnsplashPhoto \<Rightarrow> jsstring \<times> UnsplashPhoto" where
  "fetch this =
     (if truthy (id_field this) then
        (let this1 = this\<lparr>url := url this @ (lit ''/'' @ toString (id_field this))\<rparr>;
             this2 = snd (appendDimensions this1)
         in (url this2, this2))
      else if truthy (username this) then
        (let this1 = this\<lparr>url := url this @ (lit ''/user/'' @ toString (username this))\<rparr>;
             this2 = snd (appendScope this1);
             this3 = snd (appendDimensions this2);
             this4 = snd (appendRandomization False this3);
             this5 = snd (appendKeywords this4)
         in (url this5, this5))
      else if truthy (category this) then
        (let this1 = this\<lparr>url := url this @ (lit ''/category/'' @ toString (category this))\<rparr>;
             this2 = snd (appendScope this1);
             this3 = snd (appendDimensions this2);
             this4 = snd (appendRandomization False this3);
             this5 = snd (appendKeywords this4)
         in (url this5, this5))
      else if truthy (collection this) then
        (let this1 = this\<lparr>url := url this @ (lit ''/collection/'' @ toString (collection this))\<rparr>;
             this2 = snd (appendScope this1);
             this3 = snd (appendDimensions this2);
             this4 = snd (appendRandomization False this3);
             this5 = snd (appendKeywords this4)
         in (url this5, this5))
      else
        (let this2 = snd (appendScope this);
             this3 = snd (appendDimensions this2);
             this4 = snd (appendRandomization True this3);
             this5 = snd (appendKeywords this4)
         in (url this5, this5)))"


section \<open>The output format, segment by segment\<close>

text \<open>
  The segments of the documented output format
  \<^verbatim>\<open>https://<host>[/<selector>][/featured][/<w>x<h>][/daily|/weekly|/random][?<keywords>]\<close>,
  each as a function of the builder's fields. \<open>fetch\<close> is compared with their
  concatenation below.
\<close>

definition scopeSegment :: "UnsplashPhoto \<Rightarrow> jsstring" where
  "scopeSegment q = (if scope q = lit ''featured'' then lit ''/featured'' else [])"

definition dimensionSegment :: "UnsplashPhoto \<Rightarrow> jsstring" where
  "dimensionSegment q =
     (if truthy (width (dimensions q)) \<and> truthy (height (dimensions q))
      then lit ''/'' @ toString (width (dimensions q)) @ lit ''x''
             @ toString (height (dimensions q))
      else [])"

definition randomizationSegment :: "bool \<Rightarrow> UnsplashPhoto \<Rightarrow> jsstring" where
  "randomizationSegment includeRandomPath q =
     (if includeRandomPath \<and> looseEqLit (randomizationInterval q) (lit ''perRequest'')
      then lit ''/random''
      else if looseEqLit (randomizationInterval q) (lit ''daily'') then lit ''/daily''
      else if looseEqLit (randomizationInterval q) (lit ''weekly'') then lit ''/weekly''
      else [])"

definition keywordSegment :: "UnsplashPhoto \<Rightarrow> jsstring" where
  "keywordSegment q =
     (if truthy (keywords_field q) then lit ''?'' @ toString (keywords_field q) else [])"

text \<open>The path of a selector branch (username, category, collection) and of the
  branch without selector.\<close>

definition selectorBranch :: "jsstring \<Rightarrow> jsval \<Rightarrow> UnsplashPhoto \<Rightarrow> jsstring" where
  "selectorBranch name v q =
     name @ toString v @ scopeSegment q @ dimensionSegment q
       @ randomizationSegment False q @ keywordSegment q"

definition noSelectorBranch :: "UnsplashPhoto \<Rightarrow> jsstring" where
  "noSelectorBranch q =
     scopeSegment q @ dimensionSegment q @ randomizationSegment True q @ keywordSegment q"

definition idBranch :: "UnsplashPhoto \<Rightarrow> jsstring" where
  "idBranch q = lit ''/'' @ toString (id_field q) @ dimensionSegment q"


text \<open>The selector segment of the branches for username, category and collection.\<close>

definition selectorSegment :: "UnsplashPhoto \<Rightarrow> jsstring" where
  "selectorSegment q =
     (if truthy (username q) then lit ''/user/'' @ toString (username q)
      else if truthy (category q) then lit ''/category/'' @ toString (category q)
      else if truthy (collection q) then lit ''/collection/'' @ toString (collection q)
      else [])"

text \<open>What \<open>fetch\<close> appends to \<^verbatim>\<open>this.url\<close>: the branch of the first truthy selector in
  the order id, username, category, collection.\<close>

definition serialization :: "UnsplashPhoto \<Rightarrow> jsstring" where
  "serialization q =
     (if truthy (id_field q) then idBranch q
      else if truthy (username q) then selectorBranch (lit ''/user/'') (username q) q
      else if truthy (category q) then selectorBranch (lit ''/category/'') (category q) q
      else if truthy (collection q) then
        selectorBranch (lit ''/collection/'') (collection q) q
      else noSelectorBranch q)"

text \<open>The documented parameter types: a positive integer, and a dimension that is
  either absent or a positive integer.\<close>

definition positiveInt :: "jsval \<Rightarrow> bool" where
  "positiveInt v = (case v of JNum n \<Rightarrow> 0 < intOf n | _ \<Rightarrow> False)"

definition optPositiveInt :: "jsval \<Rightarrow> bool" where
  "optPositiveInt v =
     (case v of JUndefined \<Rightarrow> True | JNum n \<Rightarrow> 0 < intOf n | _ \<Rightarrow> False)"

section \<open>The keyword input, as documented\<close>

text \<open>The tokens of a keyword argument: the pieces of a comma-separated string, or the
  elements of a list of strings. Any other argument has none.\<close>

definition asString :: "jsval \<Rightarrow> jsstring option" where
  "asString v = (case v of JStr s \<Rightarrow> Some s | _ \<Rightarrow> None)"

definition keywordTokens :: "jsval \<Rightarrow> jsstring list option" where
  "keywordTokens kws =
     (case kws of
        JStr s \<Rightarrow> Some (split 0x2C s)
      | JArr ks \<Rightarrow> those (map asString ks)
      | _ \<Rightarrow> None)"

text \<open>A surrogate code unit that is not part of a pair of a leading and a trailing
  surrogate.\<close>

fun hasUnpairedSurrogate :: "jsstring \<Rightarrow> bool" where
  "hasUnpairedSurrogate [] = False"
| "hasUnpairedSurrogate [c] = (isLeadSurrogate c \<or> isTrailSurrogate c)"
| "hasUnpairedSurrogate (c # d # ds) =
     (if isLeadSurrogate c then (if isTrailSurrogate d then hasUnpairedSurrogate ds else True)
      else if isTrailSurrogate c then True
      else hasUnpairedSurrogate (d # ds))"

section \<open>Second part: values whose conversion can throw\<close>

text \<open>
  The first part models the builder on data values, where ToString and \<^verbatim>\<open>==\<close> always
  return. A caller can also pass a symbol, whose ToString throws a TypeError, or an
  object other than an array, whose conversion to a primitive calls its own methods.
  Here an object is given by what that conversion does, the same each time and whether
  \<^verbatim>\<open>+\<close>, \<^verbatim>\<open>==\<close> or \<^verbatim>\<open>join\<close> asks for it: it throws an error (a TypeError for an object
  that has neither \<^verbatim>\<open>toString\<close> nor \<^verbatim>\<open>valueOf\<close>), or it gives a string
  (\<^verbatim>\<open>"[object Object]"\<close> for a plain object). An object has no methods named \<^verbatim>\<open>split\<close>
  or \<^verbatim>\<open>trim\<close>. Every method of \<^verbatim>\<open>core.js\<close> is translated again on these values, now with
  each throw as a result.
\<close>

datatype jsany =
    AUndefined
  | ANull
  | ABool bool
  | ANum safeint
  | AStr jsstring
  | AArr "jsany list"
  | ASymbol
  | AObject "error + jsstring"

text \<open>ToBoolean never throws; symbols and objects are truthy.\<close>

fun truthy_x :: "jsany \<Rightarrow> bool" where
  "truthy_x AUndefined = False"
| "truthy_x ANull = False"
| "truthy_x (ABool b) = b"
| "truthy_x (ANum n) = (intOf n \<noteq> 0)"
| "truthy_x (AStr s) = (s \<noteq> [])"
| "truthy_x (AArr xs) = True"
| "truthy_x ASymbol = True"
| "truthy_x (AObject c) = True"

text \<open>The results of a list of conversions made from left to right: the first throw
  ends them.\<close>

fun firstThrow :: "(error + 'a) list \<Rightarrow> error + 'a list" where
  "firstThrow [] = Inr []"
| "firstThrow (Inl e # rs) = Inl e"
| "firstThrow (Inr x # rs) =
     (case firstThrow rs of Inl e \<Rightarrow> Inl e | Inr xs \<Rightarrow> Inr (x # xs))"

text \<open>ToString. \<^verbatim>\<open>join\<close> converts the elements of an array in order, \<^verbatim>\<open>undefined\<close> and
  \<^verbatim>\<open>null\<close> to the empty string.\<close>

fun toString_x :: "jsany \<Rightarrow> error + jsstring" where
  "toString_x AUndefined = Inr (lit ''undefined'')"
| "toString_x ANull = Inr (lit ''null'')"
| "toString_x (ABool b) = Inr (if b then lit ''true'' else lit ''false'')"
| "toString_x (ANum n) = Inr (numberToString n)"
| "toString_x (AStr s) = Inr s"
| "toString_x (AArr xs) =
     (case firstThrow
             (map (\<lambda>x. if x = AUndefined \<or> x = ANull then Inr [] else toString_x x) xs) of
        Inl e \<Rightarrow> Inl e
      | Inr ss \<Rightarrow> Inr (joinWith (lit '','') ss))"
| "toString_x ASymbol = Inl TypeError"
| "toString_x (AObject c) = c"

text \<open>\<^verbatim>\<open>s + v\<close> for a string \<open>s\<close>: the concatenation with the ToString of \<open>v\<close>.\<close>

definition plus_x :: "jsstring \<Rightarrow> jsany \<Rightarrow> error + jsstring" where
  "plus_x s v = (case toString_x v of Inl e \<Rightarrow> Inl e | Inr t \<Rightarrow> Inr (s @ t))"

text \<open>
  \<^verbatim>\<open>v == "literal"\<close> for the literals of the source. An array and an object are converted
  to a primitive first, which can throw; a symbol is not equal to a string.
\<close>

fun looseEqLit_x :: "jsany \<Rightarrow> jsstring \<Rightarrow> error + bool" where
  "looseEqLit_x (AStr s) l = Inr (s = l)"
| "looseEqLit_x (AArr xs) l =
     (case toString_x (AArr xs) of Inl e \<Rightarrow> Inl e | Inr s \<Rightarrow> Inr (s = l))"
| "looseEqLit_x (AObject c) l = (case c of Inl e \<Rightarrow> Inl e | Inr s \<Rightarrow> Inr (s = l))"
| "looseEqLit_x v l = Inr False"

subsection \<open>The builder\<close>

type_synonym UnsplashPhoto_x = "jsany photo"

definition new_UnsplashPhoto_x :: UnsplashPhoto_x where
  "new_UnsplashPhoto_x =
     \<lparr> version = lit ''1.0.0'',
       url = lit ''https://source.unsplash.com'',
       dimensions = \<lparr> width = AUndefined, height = AUndefined \<rparr>,
       scope = lit ''all'',
       randomizationInterval = AStr (lit ''perRequest''),
       id_field = AUndefined,
       username = AUndefined,
       category = AUndefined,
       collection = AUndefined,
       keywords_field = AUndefined \<rparr>"

definition find_x :: "jsany \<Rightarrow> UnsplashPhoto_x \<Rightarrow> UnsplashPhoto_x" where
  "find_x i this = this\<lparr>id_field := i\<rparr>"

definition width_x :: "jsany \<Rightarrow> UnsplashPhoto_x \<Rightarrow> UnsplashPhoto_x" where
  "width_x w this = this\<lparr>dimensions := (dimensions this)\<lparr>width := w\<rparr>\<rparr>"

definition height_x :: "jsany \<Rightarrow> UnsplashPhoto_x \<Rightarrow> UnsplashPhoto_x" where
  "height_x h this = this\<lparr>dimensions := (dimensions this)\<lparr>height := h\<rparr>\<rparr>"

definition size_x :: "jsany \<Rightarrow> jsany \<Rightarrow> UnsplashPhoto_x \<Rightarrow> UnsplashPhoto_x" where
  "size_x w h this =
     this\<lparr>dimensions := \<lparr> width = w, height = (if truthy_x h then h else w) \<rparr>\<rparr>"

text \<open>\<^verbatim>\<open>interval == "daily" || interval == "weekly"\<close>: the second comparison is made
  only when the first returns false; a throw of either leaves the object unchanged.\<close>

definition randomize_x ::
  "jsany \<Rightarrow> UnsplashPhoto_x \<Rightarrow> error \<times> UnsplashPhoto_x + UnsplashPhoto_x" where
  "randomize_x interval this =
     (case looseEqLit_x interval (lit ''daily'') of
        Inl e \<Rightarrow> Inl (e, this)
      | Inr True \<Rightarrow> Inr (this\<lparr>randomizationInterval := interval\<rparr>)
      | Inr False \<Rightarrow>
          (case looseEqLit_x interval (lit ''weekly'') of
             Inl e \<Rightarrow> Inl (e, this)
           | Inr True \<Rightarrow> Inr (this\<lparr>randomizationInterval := interval\<rparr>)
           | Inr False \<Rightarrow> Inr (this\<lparr>randomizationInterval := AStr (lit ''perRequest'')\<rparr>)))"

definition featured_x :: "UnsplashPhoto_x \<Rightarrow> UnsplashPhoto_x" where
  "featured_x this = this\<lparr>scope := lit ''featured''\<rparr>"

definition fromUser_x :: "jsany \<Rightarrow> UnsplashPhoto_x \<Rightarrow> UnsplashPhoto_x" where
  "fromUser_x u this = this\<lparr>username := u\<rparr>"

definition fromCategory_x :: "jsany \<Rightarrow> UnsplashPhoto_x \<Rightarrow> UnsplashPhoto_x" where
  "fromCategory_x c this = this\<lparr>category := c\<rparr>"

definition fromCollection_x :: "jsany \<Rightarrow> UnsplashPhoto_x \<Rightarrow> UnsplashPhoto_x" where
  "fromCollection_x collectionId this = this\<lparr>collection := collectionId\<rparr>"

text \<open>The keyword setter: a symbol and an object have no \<^verbatim>\<open>split\<close> and no \<^verbatim>\<open>trim\<close>.\<close>

definition keywordList_x :: "jsany \<Rightarrow> error + jsany list" where
  "keywordList_x kws =
     (case kws of
        AArr ks \<Rightarrow> Inr ks
      | AStr s \<Rightarrow> Inr (map AStr (split 0x2C s))
      | _ \<Rightarrow> Inl TypeError)"

fun trimEach_x :: "jsany list \<Rightarrow> error + jsstring list" where
  "trimEach_x [] = Inr []"
| "trimEach_x (AStr s # ks) =
     (case trimEach_x ks of Inl e \<Rightarrow> Inl e | Inr ts \<Rightarrow> Inr (trim s # ts))"
| "trimEach_x (k # ks) = Inl TypeError"

definition of_x ::
  "jsany \<Rightarrow> UnsplashPhoto_x \<Rightarrow> error \<times> UnsplashPhoto_x + UnsplashPhoto_x" where
  "of_x kws this =
     (case keywordList_x kws of
        Inl e \<Rightarrow> Inl (e, this)
      | Inr ks \<Rightarrow>
          (case trimEach_x ks of
             Inl e \<Rightarrow> Inl (e, this)
           | Inr sanitizedKeywords \<Rightarrow>
               (let joined = joinWith (lit '','') sanitizedKeywords;
                    this1 = this\<lparr>keywords_field := AStr joined\<rparr>
                in case encodeURI joined of
                     Inl e \<Rightarrow> Inl (e, this1)
                   | Inr s \<Rightarrow> Inr (this1\<lparr>keywords_field := AStr s\<rparr>))))"

subsection \<open>Serialization\<close>

text \<open>
  An \<^verbatim>\<open>_append\<close> method returns the string and the updated object, or the error thrown
  and the object as the throw leaves it. In \<^verbatim>\<open>this.url += e\<close> the throw of \<open>e\<close> comes
  before the assignment.
\<close>

definition hasDimensions_x :: "UnsplashPhoto_x \<Rightarrow> bool" where
  "hasDimensions_x this =
     (truthy_x (width (dimensions this)) \<and> truthy_x (height (dimensions this)))"

definition appendDimensions_x ::
  "UnsplashPhoto_x \<Rightarrow> error \<times> UnsplashPhoto_x + jsstring \<times> UnsplashPhoto_x" where
  "appendDimensions_x this =
     (if hasDimensions_x this then
        (case plus_x (lit ''/'') (width (dimensions this)) of
           Inl e \<Rightarrow> Inl (e, this)
         | Inr a \<Rightarrow>
             (case plus_x (a @ lit ''x'') (height (dimensions this)) of
                Inl e \<Rightarrow> Inl (e, this)
              | Inr b \<Rightarrow> (let this1 = this\<lparr>url := url this @ b\<rparr> in Inr (url this1, this1))))
      else Inr (url this, this))"

definition appendScope_x :: "UnsplashPhoto_x \<Rightarrow> jsstring \<times> UnsplashPhoto_x" where
  "appendScope_x this =
     (let this1 =
        (if scope this = lit ''featured''
         then this\<lparr>url := url this @ lit ''/featured''\<rparr>
         else this)
      in (url this1, this1))"

definition appendKeywords_x ::
  "UnsplashPhoto_x \<Rightarrow> error \<times> UnsplashPhoto_x + jsstring \<times> UnsplashPhoto_x" where
  "appendKeywords_x this =
     (if truthy_x (keywords_field this) then
        (case plus_x (lit ''?'') (keywords_field this) of
           Inl e \<Rightarrow> Inl (e, this)
         | Inr a \<Rightarrow> (let this1 = this\<lparr>url := url this @ a\<rparr> in Inr (url this1, this1)))
      else Inr (url this, this))"

text \<open>\<^verbatim>\<open>includeRandomPath && ... == "perRequest"\<close>: the comparison is made only when
  \<^verbatim>\<open>includeRandomPath\<close> is true.\<close>

definition appendRandomization_x ::
  "bool \<Rightarrow> UnsplashPhoto_x \<Rightarrow> error \<times> UnsplashPhoto_x + jsstring \<times> UnsplashPhoto_x" where
  "appendRandomization_x includeRandomPath this =
     (case (if includeRandomPath
            then looseEqLit_x (randomizationInterval this) (lit ''perRequest'')
            else Inr False) of
        Inl e \<Rightarrow> Inl (e, this)
      | Inr True \<Rightarrow>
          (let this1 = this\<lparr>url := url this @ lit ''/random''\<rparr> in Inr (url this1, this1))
      | Inr False \<Rightarrow>
          (case looseEqLit_x (randomizationInterval this) (lit ''daily'') of
             Inl e \<Rightarrow> Inl (e, this)
           | Inr True \<Rightarrow>
               (let this1 = this\<lparr>url := url this @ lit ''/daily''\<rparr> in Inr (url this1, this1))
           | Inr False \<Rightarrow>
               (case looseEqLit_x (randomizationInterval this) (lit ''weekly'') of
                  Inl e \<Rightarrow> Inl (e, this)
                | Inr True \<Rightarrow>
                    (let this1 = this\<lparr>url := url this @ lit ''/weekly''\<rparr>
                     in Inr (url this1, this1))
                | Inr False \<Rightarrow> Inr (url this, this))))"

text \<open>The next statement runs on the object the previous one left, unless that threw.\<close>

definition andThen ::
  "error \<times> 's + 'a \<times> 's \<Rightarrow> ('s \<Rightarrow> error \<times> 's + 'b \<times> 's) \<Rightarrow> error \<times> 's + 'b \<times> 's" where
  "andThen r f = (case r of Inl x \<Rightarrow> Inl x | Inr (a, s) \<Rightarrow> f s)"

text \<open>
  The four statements \<^verbatim>\<open>_appendScope(); _appendDimensions(); _appendRandomization(b);
  _appendKeywords(); return this.url\<close> that end every branch but the first, with
  \<open>b\<close> false after a selector and true without one.
\<close>

definition appendRest_x ::
  "bool \<Rightarrow> UnsplashPhoto_x \<Rightarrow> error \<times> UnsplashPhoto_x + jsstring \<times> UnsplashPhoto_x" where
  "appendRest_x includeRandomPath this1 =
     andThen (Inr (appendScope_x this1)) (\<lambda>this2.
     andThen (appendDimensions_x this2) (\<lambda>this3.
     andThen (appendRandomization_x includeRandomPath this3) (\<lambda>this4.
     andThen (appendKeywords_x this4) (\<lambda>this5.
     Inr (url this5, this5)))))"

definition fetch_x ::
  "UnsplashPhoto_x \<Rightarrow> error \<times> UnsplashPhoto_x + jsstring \<times> UnsplashPhoto_x" where
  "fetch_x this =
     (if truthy_x (id_field this) then
        (case plus_x (lit ''/'') (id_field this) of
           Inl e \<Rightarrow> Inl (e, this)
         | Inr a \<Rightarrow>
             andThen (appendDimensions_x (this\<lparr>url := url this @ a\<rparr>)) (\<lambda>this2.
             Inr (url this2, this2)))
      else if truthy_x (username this) then
        (case plus_x (lit ''/user/'') (username this) of
           Inl e \<Rightarrow> Inl (e, this)
         | Inr a \<Rightarrow> appendRest_x False (this\<lparr>url := url this @ a\<rparr>))
      else if truthy_x (category this) then
        (case plus_x (lit ''/category/'') (category this) of
           Inl e \<Rightarrow> Inl (e, this)
         | Inr a \<Rightarrow> appendRest_x False (this\<lparr>url := url this @ a\<rparr>))
      else if truthy_x (collection this) then
        (case plus_x (lit ''/collection/'') (collection this) of
           Inl e \<Rightarrow> Inl (e, this)
         | Inr a \<Rightarrow> appendRest_x False (this\<lparr>url := url this @ a\<rparr>))
      else appendRest_x True this)"

subsection \<open>The public methods as calls\<close>

text \<open>
  One constructor per public method with its arguments; an omitted argument is
  \<^verbatim>\<open>undefined\<close>. \<open>invoke\<close> gives the object after the call, or the error thrown and
  the object as the throw leaves it.
\<close>

datatype call =
    Find jsany
  | Width jsany
  | Height jsany
  | Size jsany jsany
  | Randomize jsany
  | Featured
  | Of jsany
  | FromUser jsany
  | FromCategory jsany
  | FromCollection jsany
  | Fetch

fun invoke :: "call \<Rightarrow> UnsplashPhoto_x \<Rightarrow> error \<times> UnsplashPhoto_x + UnsplashPhoto_x" where
  "invoke (Find i) this = Inr (find_x i this)"
| "invoke (Width w) this = Inr (width_x w this)"
| "invoke (Height h) this = Inr (height_x h this)"
| "invoke (Size w h) this = Inr (size_x w h this)"
| "invoke (Randomize interval) this = randomize_x interval this"
| "invoke Featured this = Inr (featured_x this)"
| "invoke (Of kws) this = of_x kws this"
| "invoke (FromUser u) this = Inr (fromUser_x u this)"
| "invoke (FromCategory c) this = Inr (fromCategory_x c this)"
| "invoke (FromCollection c) this = Inr (fromCollection_x c this)"
| "invoke Fetch this =
     (case fetch_x this of Inl x \<Rightarrow> Inl x | Inr (u, this1) \<Rightarrow> Inr this1)"

subsection \<open>Which values make a conversion throw\<close>

text \<open>
  The values whose ToString throws: a symbol, an object whose conversion throws, and an
  array with such an element. The values whose comparison with a string throws: the
  same, except that a symbol compares unequal without a throw.
\<close>

fun unconvertible :: "jsany \<Rightarrow> bool" where
  "unconvertible ASymbol = True"
| "unconvertible (AObject c) = (case c of Inl e \<Rightarrow> True | Inr s \<Rightarrow> False)"
| "unconvertible (AArr xs) = list_ex unconvertible xs"
| "unconvertible v = False"

fun incomparable :: "jsany \<Rightarrow> bool" where
  "incomparable (AObject c) = (case c of Inl e \<Rightarrow> True | Inr s \<Rightarrow> False)"
| "incomparable (AArr xs) = list_ex unconvertible xs"
| "incomparable v = False"

text \<open>The conversions \<open>fetch\<close> makes: the id and a pair of truthy dimensions in the id
  branch; otherwise the first truthy selector, a pair of truthy dimensions, the
  interval in a comparison, and truthy keywords.\<close>

definition dimensionsThrow :: "UnsplashPhoto_x \<Rightarrow> bool" where
  "dimensionsThrow q =
     (hasDimensions_x q
      \<and> (unconvertible (width (dimensions q)) \<or> unconvertible (height (dimensions q))))"

definition selectorThrows :: "UnsplashPhoto_x \<Rightarrow> bool" where
  "selectorThrows q =
     (if truthy_x (username q) then unconvertible (username q)
      else if truthy_x (category q) then unconvertible (category q)
      else if truthy_x (collection q) then unconvertible (collection q)
      else False)"

definition keywordsThrow :: "UnsplashPhoto_x \<Rightarrow> bool" where
  "keywordsThrow q = (truthy_x (keywords_field q) \<and> unconvertible (keywords_field q))"

definition fetchThrows :: "UnsplashPhoto_x \<Rightarrow> bool" where
  "fetchThrows q =
     (if truthy_x (id_field q) then unconvertible (id_field q) \<or> dimensionsThrow q
      else selectorThrows q \<or> dimensionsThrow q
           \<or> incomparable (randomizationInterval q) \<or> keywordsThrow q)"

text \<open>The tokens of a keyword argument, as in the first part.\<close>

definition asString_x :: "jsany \<Rightarrow> jsstring option" where
  "asString_x v = (case v of AStr s \<Rightarrow> Some s | _ \<Rightarrow> None)"

definition keywordTokens_x :: "jsany \<Rightarrow> jsstring list option" where
  "keywordTokens_x kws =
     (case kws of
        AStr s \<Rightarrow> Some (split 0x2C s)
      | AArr ks \<Rightarrow> those (map asString_x ks)
      | _ \<Rightarrow> None)"

subsection \<open>Data values among all values\<close>

text \<open>A data value of the first part as a value of the second, and an object of the
  first part as an object of the second.\<close>

fun embed :: "jsval \<Rightarrow> jsany" where
  "embed JUndefined = AUndefined"
| "embed JNull = ANull"
| "embed (JBool b) = ABool b"
| "embed (JNum n) = ANum n"
| "embed (JStr s) = AStr s"
| "embed (JArr xs) = AArr (map embed xs)"

definition embedPhoto :: "UnsplashPhoto \<Rightarrow> UnsplashPhoto_x" where
  "embedPhoto q =
     \<lparr> version = version q,
       url = url q,
       dimensions = \<lparr> width = embed (width (dimensions q)),
                      height = embed (height (dimensions q)) \<rparr>,
       scope = scope q,
       randomizationInterval = embed (randomizationInterval q),
       id_field = embed (id_field q),
       username = embed (username q),
       category = embed (category q),
       collection = embed (collection q),
       keywords_field = embed (keywords_field q) \<rparr>"

section \<open>An example object\<close>

text \<open>A lookup by id on which dimensions, scope, interval and keywords are all set.\<close>

abbreviation lookupExample :: UnsplashPhoto where
  "lookupExample \<equiv>
     (randomize (JStr (lit ''daily''))
        (featured (size_m (JNum (SafeInt 300)) (JNum (SafeInt 200)) (find_m (JNum (SafeInt 42)) new_UnsplashPhoto))))
     \<lparr>keywords_field := JStr (lit ''cat'')\<rparr>"

section \<open>Safe integers\<close>

text \<open>\<open>SafeInt n\<close> is the number \<open>n\<close> whenever \<open>n\<close> is a safe integer.\<close>

lemma intOf_SafeInt [simp]:
  "- 9007199254740991 \<le> n \<Longrightarrow> n \<le> 9007199254740991 \<Longrightarrow> intOf (SafeInt n) = n"
  by (simp add: SafeInt_inverse)

section \<open>\<open>fetch\<close> appends the serialization\<close>

text \<open>Each \<^verbatim>\<open>_append\<close> method appends its segment to \<^verbatim>\<open>this.url\<close> and changes nothing
  else.\<close>

lemma appendScope_eq:
  "appendScope q = (url q @ scopeSegment q, q\<lparr>url := url q @ scopeSegment q\<rparr>)"
  by (simp add: appendScope_def scopeSegment_def Let_def)

lemma appendDimensions_eq:
  "appendDimensions q =
     (url q @ dimensionSegment q, q\<lparr>url := url q @ dimensionSegment q\<rparr>)"
  by (simp add: appendDimensions_def dimensionSegment_def hasDimensions_def Let_def)

lemma appendRandomization_eq:
  "appendRandomization b q =
     (url q @ randomizationSegment b q, q\<lparr>url := url q @ randomizationSegment b q\<rparr>)"
  by (simp add: appendRandomization_def randomizationSegment_def Let_def)

lemma appendKeywords_eq:
  "appendKeywords q = (url q @ keywordSegment q, q\<lparr>url := url q @ keywordSegment q\<rparr>)"
  by (simp add: appendKeywords_def keywordSegment_def Let_def)

lemma segment_url_update [simp]:
  "scopeSegment (q\<lparr>url := u\<rparr>) = scopeSegment q"
  "dimensionSegment (q\<lparr>url := u\<rparr>) = dimensionSegment q"
  "randomizationSegment b (q\<lparr>url := u\<rparr>) = randomizationSegment b q"
  "keywordSegment (q\<lparr>url := u\<rparr>) = keywordSegment q"
  by (simp_all add: scopeSegment_def dimensionSegment_def randomizationSegment_def
        keywordSegment_def)

lemma fetch_eq: "fetch q = (url q @ serialization q, q\<lparr>url := url q @ serialization q\<rparr>)"
  by (simp add: fetch_def serialization_def idBranch_def selectorBranch_def noSelectorBranch_def
        appendScope_eq appendDimensions_eq appendRandomization_eq appendKeywords_eq Let_def)

lemma fst_fetch: "fst (fetch q) = url q @ serialization q"
  by (simp add: fetch_eq)

text \<open>The definitions that evaluate a chain of calls on concrete arguments.\<close>

lemmas eval_defs =
  new_UnsplashPhoto_def find_m_def width_m_def height_m_def size_m_def randomize_def
  featured_def fromUser_def fromCategory_def fromCollection_def
  serialization_def idBranch_def selectorBranch_def noSelectorBranch_def
  scopeSegment_def dimensionSegment_def randomizationSegment_def keywordSegment_def
  numberToString_def natToString.simps digitChar_def lit_def

section \<open>Selector precedence\<close>

text \<open>
  Claim C1. A selector is set when \<open>fetch\<close>'s dispatch finds it truthy. \<open>fetch\<close> appends
  the branch of the first truthy selector in the order id, username, category,
  collection, and no other branch. The selectors after the one chosen do not reach the
  output: with a truthy id, the username, category and collection can be replaced by any
  values without changing the URL, and so on down the order.
\<close>

theorem fetch_selector_precedence:
  "fst (fetch q) = url q @
     (if truthy (id_field q) then idBranch q
      else if truthy (username q) then selectorBranch (lit ''/user/'') (username q) q
      else if truthy (category q) then selectorBranch (lit ''/category/'') (category q) q
      else if truthy (collection q) then selectorBranch (lit ''/collection/'') (collection q) q
      else noSelectorBranch q)
   \<and> (truthy (id_field q) \<longrightarrow>
        fst (fetch (q\<lparr>username := u, category := c, collection := k\<rparr>)) = fst (fetch q))
   \<and> (\<not> truthy (id_field q) \<and> truthy (username q) \<longrightarrow>
        fst (fetch (q\<lparr>category := c, collection := k\<rparr>)) = fst (fetch q))
   \<and> (\<not> truthy (id_field q) \<and> \<not> truthy (username q) \<and> truthy (category q) \<longrightarrow>
        fst (fetch (q\<lparr>collection := k\<rparr>)) = fst (fetch q))"
  by (simp add: fst_fetch serialization_def idBranch_def selectorBranch_def
        scopeSegment_def dimensionSegment_def randomizationSegment_def keywordSegment_def)

theorem fetch_selector_precedence_witness:
  "truthy (id_field (fromUser (JStr (lit ''bob'')) (find_m (JNum (SafeInt 7)) new_UnsplashPhoto)))
   \<and> truthy (username (fromUser (JStr (lit ''bob'')) (find_m (JNum (SafeInt 7)) new_UnsplashPhoto)))
   \<and> fst (fetch (fromUser (JStr (lit ''bob'')) (find_m (JNum (SafeInt 7)) new_UnsplashPhoto)))
       = lit ''https://source.unsplash.com/7''
   \<and> fst (fetch (find_m (JNum (SafeInt 7)) new_UnsplashPhoto))
       = fst (fetch (fromUser (JStr (lit ''bob'')) (find_m (JNum (SafeInt 7)) new_UnsplashPhoto)))"
proof -
  let ?Q = "fromUser (JStr (lit ''bob'')) (find_m (JNum (SafeInt 7)) new_UnsplashPhoto)"
  have h: "truthy (id_field ?Q)" "truthy (username ?Q)"
    by (simp_all add: fromUser_def find_m_def lit_def)
  have e: "?Q\<lparr>username := JUndefined, category := JUndefined, collection := JUndefined\<rparr>
      = find_m (JNum (SafeInt 7)) new_UnsplashPhoto"
    by (simp add: fromUser_def find_m_def new_UnsplashPhoto_def)
  have v: "url ?Q @ idBranch ?Q = lit ''https://source.unsplash.com/7''"
    by (simp add: eval_defs)
  from fetch_selector_precedence
    [where q = ?Q and u = JUndefined and c = JUndefined and k = JUndefined] h
  have "fst (fetch ?Q) = url ?Q @ idBranch ?Q"
    and "fst (fetch (?Q\<lparr>username := JUndefined, category := JUndefined,
            collection := JUndefined\<rparr>)) = fst (fetch ?Q)"
    by simp_all
  with h e v show ?thesis by simp
qed

section \<open>Direct id lookup\<close>

text \<open>The code units of a URL built from the root, decimal numbers and the letters of
  the dimension segment.\<close>

lemma digitChar_in: "d < 10 \<Longrightarrow> digitChar d \<in> set (lit ''0123456789'')"
proof -
  assume "d < 10"
  then have "d \<in> {0,1,2,3,4,5,6,7,8,9}" by auto
  then show ?thesis by (auto simp add: digitChar_def lit_def)
qed

lemma set_natToString: "set (natToString n) \<subseteq> set (lit ''0123456789'')"
proof (induction n rule: natToString.induct)
  case (1 n)
  show ?case
  proof (cases "n < 10")
    case True
    then show ?thesis
      using digitChar_in [of n] by (subst natToString.simps) simp
  next
    case False
    have "n mod 10 < 10" by simp
    then have "digitChar (n mod 10) \<in> set (lit ''0123456789'')" by (rule digitChar_in)
    with False 1 show ?thesis
      by (subst natToString.simps) simp
  qed
qed

lemma set_numberToString: "set (numberToString n) \<subseteq> set (lit ''-0123456789'')"
proof -
  have "set (lit ''0123456789'') \<subseteq> set (lit ''-0123456789'')" by (simp add: lit_def)
  then have d: "set (natToString m) \<subseteq> set (lit ''-0123456789'')" for m
    using set_natToString [of m] by (rule order_trans [rotated])
  have m: "set (lit ''-'') \<subseteq> set (lit ''-0123456789'')" by (simp add: lit_def)
  show ?thesis
    using d m by (simp add: numberToString_def)
qed

lemma set_toString_positiveInt:
  "positiveInt v \<Longrightarrow> set (toString v) \<subseteq> set (lit ''-0123456789'')"
  by (cases v) (simp_all add: positiveInt_def set_numberToString)

lemma set_dimensionSegment_typed:
  assumes "optPositiveInt (width (dimensions q))" "optPositiveInt (height (dimensions q))"
  shows "set (dimensionSegment q) \<subseteq> set (lit ''/x'') \<union> set (lit ''-0123456789'')"
proof (cases "truthy (width (dimensions q)) \<and> truthy (height (dimensions q))")
  case False
  then show ?thesis by (auto simp add: dimensionSegment_def)
next
  case True
  then have "positiveInt (width (dimensions q))" "positiveInt (height (dimensions q))"
    using assms by (auto simp add: optPositiveInt_def positiveInt_def split: jsval.splits)
  then have "set (toString (width (dimensions q))) \<subseteq> set (lit ''-0123456789'')"
    "set (toString (height (dimensions q))) \<subseteq> set (lit ''-0123456789'')"
    by (simp_all add: set_toString_positiveInt)
  moreover have "set (lit ''/'') \<subseteq> set (lit ''/x'')" "set (lit ''x'') \<subseteq> set (lit ''/x'')"
    by (simp_all add: lit_def)
  ultimately show ?thesis
    using True by (auto simp add: dimensionSegment_def)
qed

lemma set_id_url:
  assumes "positiveInt (id_field q)" "optPositiveInt (width (dimensions q))"
    "optPositiveInt (height (dimensions q))" "url q = url new_UnsplashPhoto"
  shows "set (fst (fetch q)) \<subseteq>
    set (lit ''https://source.unsplash.com'') \<union> (set (lit ''/x'') \<union> set (lit ''-0123456789''))"
proof -
  have t: "truthy (id_field q)"
    using assms(1) by (auto simp add: positiveInt_def split: jsval.splits)
  have "set (lit ''/'') \<subseteq> set (lit ''/x'')" by (simp add: lit_def)
  moreover note set_toString_positiveInt [OF assms(1)]
    set_dimensionSegment_typed [OF assms(2,3)]
  moreover have "url q = lit ''https://source.unsplash.com''"
    using assms(4) by (simp add: new_UnsplashPhoto_def)
  ultimately show ?thesis
    using t by (auto simp add: fst_fetch serialization_def idBranch_def)
qed

lemma not_sublist_by_char:
  "c \<in> set p \<Longrightarrow> c \<notin> set s \<Longrightarrow> \<not> sublist p s"
  using set_mono_sublist by fastforce

lemma id_url_chars:
  "(0x66 :: jschar) \<notin> set (lit ''https://source.unsplash.com'') \<union> (set (lit ''/x'') \<union> set (lit ''-0123456789''))"
  "(0x64 :: jschar) \<notin> set (lit ''https://source.unsplash.com'') \<union> (set (lit ''/x'') \<union> set (lit ''-0123456789''))"
  "(0x77 :: jschar) \<notin> set (lit ''https://source.unsplash.com'') \<union> (set (lit ''/x'') \<union> set (lit ''-0123456789''))"
  "(0x3F :: jschar) \<notin> set (lit ''https://source.unsplash.com'') \<union> (set (lit ''/x'') \<union> set (lit ''-0123456789''))"
  by (simp_all add: lit_def)

lemma pattern_chars:
  "(0x66 :: jschar) \<in> set (lit ''/featured'')"
  "(0x64 :: jschar) \<in> set (lit ''/daily'')"
  "(0x77 :: jschar) \<in> set (lit ''/weekly'')"
  "(0x64 :: jschar) \<in> set (lit ''/random'')"
  "(0x3F :: jschar) \<in> set (lit ''?'')"
  by (simp_all add: lit_def)

text \<open>
  Claim C2. With a truthy id, \<open>fetch\<close> appends \<^verbatim>\<open>/<id>\<close> and the dimension segment and
  nothing else: scope, randomization interval and keywords can be replaced by any values
  without changing the URL. For the documented types (a positive safe integer as id,
  each dimension absent or a positive safe integer) on an object whose \<^verbatim>\<open>url\<close> is still the
  service root, the URL contains none of \<^verbatim>\<open>/featured\<close>, \<^verbatim>\<open>/daily\<close>, \<^verbatim>\<open>/weekly\<close>,
  \<^verbatim>\<open>/random\<close> and no \<^verbatim>\<open>?\<close>.
\<close>

theorem id_lookup_only_id_and_dimensions:
  "truthy (id_field q) \<longrightarrow>
     fst (fetch q) = url q @ lit ''/'' @ toString (id_field q) @ dimensionSegment q
     \<and> fst (fetch (q\<lparr>scope := s, randomizationInterval := r, keywords_field := k\<rparr>))
         = fst (fetch q)
     \<and> (positiveInt (id_field q) \<and> optPositiveInt (width (dimensions q))
          \<and> optPositiveInt (height (dimensions q)) \<and> url q = url new_UnsplashPhoto \<longrightarrow>
          \<not> sublist (lit ''/featured'') (fst (fetch q))
          \<and> \<not> sublist (lit ''/daily'') (fst (fetch q))
          \<and> \<not> sublist (lit ''/weekly'') (fst (fetch q))
          \<and> \<not> sublist (lit ''/random'') (fst (fetch q))
          \<and> \<not> sublist (lit ''?'') (fst (fetch q)))"
proof (intro impI conjI)
  assume t: "truthy (id_field q)"
  then show "fst (fetch q) = url q @ lit ''/'' @ toString (id_field q) @ dimensionSegment q"
    by (simp add: fst_fetch serialization_def idBranch_def)
  from t show "fst (fetch (q\<lparr>scope := s, randomizationInterval := r, keywords_field := k\<rparr>))
         = fst (fetch q)"
    by (simp add: fst_fetch serialization_def idBranch_def dimensionSegment_def)
  assume "positiveInt (id_field q) \<and> optPositiveInt (width (dimensions q))
          \<and> optPositiveInt (height (dimensions q)) \<and> url q = url new_UnsplashPhoto"
  then have sub: "set (fst (fetch q)) \<subseteq>
    set (lit ''https://source.unsplash.com'') \<union> (set (lit ''/x'') \<union> set (lit ''-0123456789''))"
    by (simp add: set_id_url)
  show "\<not> sublist (lit ''/featured'') (fst (fetch q))"
    using sub id_url_chars(1) by (intro not_sublist_by_char [OF pattern_chars(1)]) blast
  show "\<not> sublist (lit ''/daily'') (fst (fetch q))"
    using sub id_url_chars(2) by (intro not_sublist_by_char [OF pattern_chars(2)]) blast
  show "\<not> sublist (lit ''/weekly'') (fst (fetch q))"
    using sub id_url_chars(3) by (intro not_sublist_by_char [OF pattern_chars(3)]) blast
  show "\<not> sublist (lit ''/random'') (fst (fetch q))"
    using sub id_url_chars(2) by (intro not_sublist_by_char [OF pattern_chars(4)]) blast
  show "\<not> sublist (lit ''?'') (fst (fetch q))"
    using sub id_url_chars(4) by (intro not_sublist_by_char [OF pattern_chars(5)]) blast
qed

theorem id_lookup_only_id_and_dimensions_witness:
  "positiveInt (id_field lookupExample)
   \<and> optPositiveInt (width (dimensions lookupExample))
   \<and> optPositiveInt (height (dimensions lookupExample))
   \<and> url lookupExample = url new_UnsplashPhoto
   \<and> scope lookupExample = lit ''featured''
   \<and> randomizationInterval lookupExample = JStr (lit ''daily'')
   \<and> fst (fetch lookupExample) = lit ''https://source.unsplash.com/42/300x200''
   \<and> \<not> sublist (lit ''/featured'') (fst (fetch lookupExample))
   \<and> \<not> sublist (lit ''/daily'') (fst (fetch lookupExample))
   \<and> \<not> sublist (lit ''?'') (fst (fetch lookupExample))"
proof -
  have h: "truthy (id_field lookupExample)" "positiveInt (id_field lookupExample)"
    "optPositiveInt (width (dimensions lookupExample))"
    "optPositiveInt (height (dimensions lookupExample))"
    "url lookupExample = url new_UnsplashPhoto"
    "scope lookupExample = lit ''featured''"
    "randomizationInterval lookupExample = JStr (lit ''daily'')"
    by (simp_all add: randomize_def featured_def size_m_def find_m_def new_UnsplashPhoto_def
          positiveInt_def optPositiveInt_def)
  have d: "dimensionSegment lookupExample = lit ''/300x200''"
    "url lookupExample @ lit ''/'' @ toString (id_field lookupExample) @ lit ''/300x200''
       = lit ''https://source.unsplash.com/42/300x200''"
    by (simp_all add: eval_defs)
  have a: "fst (fetch lookupExample)
        = url lookupExample @ lit ''/'' @ toString (id_field lookupExample)
            @ dimensionSegment lookupExample
      \<and> \<not> sublist (lit ''/featured'') (fst (fetch lookupExample))
      \<and> \<not> sublist (lit ''/daily'') (fst (fetch lookupExample))
      \<and> \<not> sublist (lit ''?'') (fst (fetch lookupExample))"
    using id_lookup_only_id_and_dimensions
      [where q = lookupExample and s = "[]" and r = JUndefined and k = JUndefined] h(1-5)
    by blast
  from a have "fst (fetch lookupExample) = lit ''https://source.unsplash.com/42/300x200''"
    by (simp only: d)
  with a h show ?thesis
    by blast
qed

section \<open>The randomization segment, branch by branch\<close>

text \<open>An occurrence of a pattern cannot straddle a boundary whose first code unit occurs
  in the pattern at its head only; every segment starts with \<^verbatim>\<open>/\<close> or \<^verbatim>\<open>?\<close>.\<close>

lemma sublist_boundary:
  assumes "b \<notin> set (tl p)"
  shows "sublist p (A @ b # B) \<longleftrightarrow> sublist p A \<or> sublist p (b # B)"
proof
  assume "sublist p (A @ b # B)"
  then consider "sublist p A" | "sublist p (b # B)"
    | xs1 xs2 where "p = xs1 @ xs2" "suffix xs1 A" "prefix xs2 (b # B)"
    by (auto simp add: sublist_append)
  then show "sublist p A \<or> sublist p (b # B)"
  proof cases
    case 3
    show ?thesis
    proof (cases xs1)
      case Nil
      with 3 have "prefix p (b # B)" by simp
      then show ?thesis by (simp add: prefix_imp_sublist)
    next
      case c1: (Cons x xs1')
      show ?thesis
      proof (cases xs2)
        case Nil
        with 3 have "suffix p A" by simp
        then show ?thesis by (simp add: suffix_imp_sublist)
      next
        case (Cons y ys)
        with 3 have "y = b" by simp
        with 3 Cons c1 have "b \<in> set (tl p)" by simp
        with assms show ?thesis by simp
      qed
    qed
  qed auto
next
  assume "sublist p A \<or> sublist p (b # B)"
  then show "sublist p (A @ b # B)" by (auto simp add: sublist_append)
qed

lemma sublist_random_segment:
  assumes "S = [] \<or> hd S = 0x2F \<or> hd S = 0x3F"
  shows "sublist (lit ''/random'') (A @ S)
     \<longleftrightarrow> sublist (lit ''/random'') A \<or> sublist (lit ''/random'') S"
proof (cases S)
  case Nil
  then show ?thesis by (simp add: lit_def)
next
  case (Cons b B)
  with assms have "b = 0x2F \<or> b = 0x3F" by simp
  then have "b \<notin> set (tl (lit ''/random''))" by (auto simp add: lit_def)
  then show ?thesis unfolding Cons by (rule sublist_boundary)
qed

lemma segment_heads:
  "scopeSegment q = [] \<or> hd (scopeSegment q) = 0x2F \<or> hd (scopeSegment q) = 0x3F"
  "dimensionSegment q = [] \<or> hd (dimensionSegment q) = 0x2F \<or> hd (dimensionSegment q) = 0x3F"
  "keywordSegment q = [] \<or> hd (keywordSegment q) = 0x2F \<or> hd (keywordSegment q) = 0x3F"
  "selectorSegment q = [] \<or> hd (selectorSegment q) = 0x2F \<or> hd (selectorSegment q) = 0x3F"
  by (simp_all add: scopeSegment_def dimensionSegment_def keywordSegment_def
        selectorSegment_def lit_def)

lemma no_random_in_fixed:
  "\<not> sublist (lit ''/random'') (lit ''https://source.unsplash.com'')"
  "\<not> sublist (lit ''/random'') (scopeSegment q)"
  by (simp_all add: scopeSegment_def lit_def sublist_Cons_right)

lemma random_in_keywordSegment:
  "sublist (lit ''/random'') (keywordSegment q)
     \<Longrightarrow> sublist (lit ''/random'') (toString (keywords_field q))"
  by (simp add: keywordSegment_def lit_def sublist_Cons_right split: if_splits)

lemma randomizationSegment_perRequest:
  "randomizationInterval q = JStr (lit ''perRequest'') \<Longrightarrow>
     randomizationSegment True q = lit ''/random'' \<and> randomizationSegment False q = []"
  by (simp add: randomizationSegment_def lit_def)

lemma serialization_selector:
  "\<not> truthy (id_field q) \<Longrightarrow>
   truthy (username q) \<or> truthy (category q) \<or> truthy (collection q) \<Longrightarrow>
   serialization q = selectorSegment q @ scopeSegment q @ dimensionSegment q
      @ randomizationSegment False q @ keywordSegment q"
  by (auto simp add: serialization_def selectorBranch_def selectorSegment_def)

text \<open>
  Claim C3, amended. Without a selector and with the interval \<^verbatim>\<open>"perRequest"\<close>, the URL
  is the root, scope and dimension segments, then \<^verbatim>\<open>/random\<close>, then the keyword
  segment. In the username, category and collection branches the randomization step
  appends \<^verbatim>\<open>/daily\<close> or \<^verbatim>\<open>/weekly\<close> for those intervals and nothing otherwise; with
  the interval \<^verbatim>\<open>"perRequest"\<close> the URL is the root, the selector segment, scope,
  dimensions and keywords, and on a fresh root it contains \<^verbatim>\<open>/random\<close> only if the
  selector segment, the dimension segment or the keyword string contains it.
\<close>

theorem random_segment_by_branch:
  "(\<not> truthy (id_field q) \<and> \<not> truthy (username q) \<and> \<not> truthy (category q)
      \<and> \<not> truthy (collection q)
      \<and> randomizationInterval q = JStr (lit ''perRequest'') \<longrightarrow>
      fst (fetch q)
        = (url q @ scopeSegment q @ dimensionSegment q @ lit ''/random'') @ keywordSegment q)
   \<and> (\<not> truthy (id_field q)
      \<and> (truthy (username q) \<or> truthy (category q) \<or> truthy (collection q)) \<longrightarrow>
      fst (fetch q)
        = url q @ selectorSegment q @ scopeSegment q @ dimensionSegment q
            @ (if looseEqLit (randomizationInterval q) (lit ''daily'') then lit ''/daily''
               else if looseEqLit (randomizationInterval q) (lit ''weekly'') then lit ''/weekly''
               else [])
            @ keywordSegment q)
   \<and> (\<not> truthy (id_field q)
      \<and> (truthy (username q) \<or> truthy (category q) \<or> truthy (collection q))
      \<and> randomizationInterval q = JStr (lit ''perRequest'') \<longrightarrow>
      fst (fetch q)
        = url q @ selectorSegment q @ scopeSegment q @ dimensionSegment q @ keywordSegment q
      \<and> (url q = url new_UnsplashPhoto \<and> sublist (lit ''/random'') (fst (fetch q)) \<longrightarrow>
           sublist (lit ''/random'') (selectorSegment q)
           \<or> sublist (lit ''/random'') (dimensionSegment q)
           \<or> sublist (lit ''/random'') (toString (keywords_field q))))"
proof (intro conjI impI)
  assume "\<not> truthy (id_field q) \<and> \<not> truthy (username q) \<and> \<not> truthy (category q)
      \<and> \<not> truthy (collection q)
      \<and> randomizationInterval q = JStr (lit ''perRequest'')"
  then show "fst (fetch q)
        = (url q @ scopeSegment q @ dimensionSegment q @ lit ''/random'') @ keywordSegment q"
    by (simp add: fst_fetch serialization_def noSelectorBranch_def
          randomizationSegment_perRequest)
next
  assume "\<not> truthy (id_field q)
      \<and> (truthy (username q) \<or> truthy (category q) \<or> truthy (collection q))"
  then show "fst (fetch q)
        = url q @ selectorSegment q @ scopeSegment q @ dimensionSegment q
            @ (if looseEqLit (randomizationInterval q) (lit ''daily'') then lit ''/daily''
               else if looseEqLit (randomizationInterval q) (lit ''weekly'') then lit ''/weekly''
               else [])
            @ keywordSegment q"
    by (simp add: fst_fetch serialization_selector randomizationSegment_def)
next
  assume a: "\<not> truthy (id_field q)
      \<and> (truthy (username q) \<or> truthy (category q) \<or> truthy (collection q))
      \<and> randomizationInterval q = JStr (lit ''perRequest'')"
  then show e: "fst (fetch q)
        = url q @ selectorSegment q @ scopeSegment q @ dimensionSegment q @ keywordSegment q"
    by (simp add: fst_fetch serialization_selector randomizationSegment_perRequest)
  assume b: "url q = url new_UnsplashPhoto \<and> sublist (lit ''/random'') (fst (fetch q))"
  then have u: "url q = lit ''https://source.unsplash.com''"
    by (simp add: new_UnsplashPhoto_def)
  have "fst (fetch q)
      = (((lit ''https://source.unsplash.com'' @ selectorSegment q) @ scopeSegment q)
          @ dimensionSegment q) @ keywordSegment q"
    by (simp add: e u)
  moreover from b have "sublist (lit ''/random'') (fst (fetch q))"
    by simp
  ultimately have "sublist (lit ''/random'')
      ((((lit ''https://source.unsplash.com'' @ selectorSegment q) @ scopeSegment q)
          @ dimensionSegment q) @ keywordSegment q)"
    by (simp only:)
  then have "sublist (lit ''/random'') (selectorSegment q)
      \<or> sublist (lit ''/random'') (dimensionSegment q)
      \<or> sublist (lit ''/random'') (keywordSegment q)"
    by (simp only: sublist_random_segment [OF segment_heads(1)]
          sublist_random_segment [OF segment_heads(2)]
          sublist_random_segment [OF segment_heads(3)]
          sublist_random_segment [OF segment_heads(4)] no_random_in_fixed) simp
  then show "sublist (lit ''/random'') (selectorSegment q)
           \<or> sublist (lit ''/random'') (dimensionSegment q)
           \<or> sublist (lit ''/random'') (toString (keywords_field q))"
    using random_in_keywordSegment by blast
qed

theorem random_segment_by_branch_witness:
  "randomizationInterval new_UnsplashPhoto = JStr (lit ''perRequest'')
   \<and> fst (fetch new_UnsplashPhoto) = lit ''https://source.unsplash.com/random''
   \<and> truthy (username (fromUser (JStr (lit ''bob'')) new_UnsplashPhoto))
   \<and> fst (fetch (fromUser (JStr (lit ''bob'')) new_UnsplashPhoto))
       = lit ''https://source.unsplash.com/user/bob''
   \<and> fst (fetch (randomize (JStr (lit ''weekly''))
         (fromCategory (JStr (lit ''nature'')) new_UnsplashPhoto)))
       = lit ''https://source.unsplash.com/category/nature/weekly''
   \<and> sublist (lit ''/random'')
       (fst (fetch (fromCollection (JStr (lit ''a/random'')) new_UnsplashPhoto)))
   \<and> sublist (lit ''/random'')
       (selectorSegment (fromCollection (JStr (lit ''a/random'')) new_UnsplashPhoto))"
proof -
  let ?u = "fromUser (JStr (lit ''bob'')) new_UnsplashPhoto"
  let ?c = "randomize (JStr (lit ''weekly''))
         (fromCategory (JStr (lit ''nature'')) new_UnsplashPhoto)"
  let ?l = "fromCollection (JStr (lit ''a/random'')) new_UnsplashPhoto"
  have n: "\<not> truthy (id_field new_UnsplashPhoto) \<and> \<not> truthy (username new_UnsplashPhoto)
      \<and> \<not> truthy (category new_UnsplashPhoto) \<and> \<not> truthy (collection new_UnsplashPhoto)
      \<and> randomizationInterval new_UnsplashPhoto = JStr (lit ''perRequest'')"
    by (simp add: new_UnsplashPhoto_def)
  have nv: "(url new_UnsplashPhoto @ scopeSegment new_UnsplashPhoto
        @ dimensionSegment new_UnsplashPhoto @ lit ''/random'')
        @ keywordSegment new_UnsplashPhoto = lit ''https://source.unsplash.com/random''"
    by (simp add: eval_defs)
  from random_segment_by_branch [of new_UnsplashPhoto] n
  have "fst (fetch new_UnsplashPhoto)
      = (url new_UnsplashPhoto @ scopeSegment new_UnsplashPhoto
          @ dimensionSegment new_UnsplashPhoto @ lit ''/random'')
          @ keywordSegment new_UnsplashPhoto"
    by blast
  then have 1: "fst (fetch new_UnsplashPhoto) = lit ''https://source.unsplash.com/random''"
    by (simp only: nv)
  have u: "\<not> truthy (id_field ?u)" "truthy (username ?u)"
    "randomizationInterval ?u = JStr (lit ''perRequest'')"
    by (simp_all add: fromUser_def new_UnsplashPhoto_def lit_def)
  have uv: "url ?u @ selectorSegment ?u @ scopeSegment ?u @ dimensionSegment ?u
        @ keywordSegment ?u = lit ''https://source.unsplash.com/user/bob''"
    by (simp add: eval_defs selectorSegment_def)
  from random_segment_by_branch [of ?u] u
  have "fst (fetch ?u) = url ?u @ selectorSegment ?u @ scopeSegment ?u @ dimensionSegment ?u
        @ keywordSegment ?u"
    by blast
  then have 2: "fst (fetch ?u) = lit ''https://source.unsplash.com/user/bob''"
    by (simp only: uv)
  have c: "\<not> truthy (id_field ?c)" "truthy (category ?c)"
    by (simp_all add: randomize_def fromCategory_def new_UnsplashPhoto_def lit_def)
  have cv: "url ?c @ selectorSegment ?c @ scopeSegment ?c @ dimensionSegment ?c
        @ (if looseEqLit (randomizationInterval ?c) (lit ''daily'') then lit ''/daily''
           else if looseEqLit (randomizationInterval ?c) (lit ''weekly'') then lit ''/weekly''
           else [])
        @ keywordSegment ?c = lit ''https://source.unsplash.com/category/nature/weekly''"
    by (simp add: eval_defs selectorSegment_def)
  from random_segment_by_branch [of ?c] c
  have "fst (fetch ?c) = url ?c @ selectorSegment ?c @ scopeSegment ?c @ dimensionSegment ?c
        @ (if looseEqLit (randomizationInterval ?c) (lit ''daily'') then lit ''/daily''
           else if looseEqLit (randomizationInterval ?c) (lit ''weekly'') then lit ''/weekly''
           else [])
        @ keywordSegment ?c"
    by blast
  then have 3: "fst (fetch ?c) = lit ''https://source.unsplash.com/category/nature/weekly''"
    by (simp only: cv)
  have 4: "sublist (lit ''/random'') (fst (fetch ?l))"
    by (simp add: fst_fetch eval_defs sublist_Cons_right)
  have "\<not> sublist (lit ''/random'') (dimensionSegment ?l)"
    "\<not> sublist (lit ''/random'') (toString (keywords_field ?l))"
    by (simp_all add: eval_defs sublist_Cons_right)
  moreover have "\<not> truthy (id_field ?l)" "truthy (collection ?l)"
    "randomizationInterval ?l = JStr (lit ''perRequest'')" "url ?l = url new_UnsplashPhoto"
    by (simp_all add: fromCollection_def new_UnsplashPhoto_def lit_def)
  ultimately have 5: "sublist (lit ''/random'') (selectorSegment ?l)"
    using random_segment_by_branch [of ?l] 4
    by blast
  from n u(2) 1 2 3 4 5 show ?thesis by blast
qed

text \<open>The claim as stated fails for the username \<^verbatim>\<open>"random"\<close>: the interval is
  \<^verbatim>\<open>"perRequest"\<close>, the username branch is taken, and the URL ends in \<^verbatim>\<open>/random\<close>.\<close>

theorem username_random_counterexample:
  "\<not> truthy (id_field (fromUser (JStr (lit ''random'')) new_UnsplashPhoto))
   \<and> truthy (username (fromUser (JStr (lit ''random'')) new_UnsplashPhoto))
   \<and> randomizationInterval (fromUser (JStr (lit ''random'')) new_UnsplashPhoto)
       = JStr (lit ''perRequest'')
   \<and> fst (fetch (fromUser (JStr (lit ''random'')) new_UnsplashPhoto))
       = lit ''https://source.unsplash.com/user/random''
   \<and> sublist (lit ''/random'')
       (fst (fetch (fromUser (JStr (lit ''random'')) new_UnsplashPhoto)))"
  by (simp add: fst_fetch eval_defs sublist_Cons_right)

section \<open>The keyword setter\<close>

subsection \<open>The setter in terms of the tokens\<close>

lemma those_map_JStr: "those (map (asString \<circ> JStr) ts) = Some ts"
  by (induction ts) (simp_all add: asString_def)

lemma trimEach_tokens:
  "trimEach ks =
     (case those (map asString ks) of None \<Rightarrow> Inl TypeError | Some ts \<Rightarrow> Inr (map trim ts))"
proof (induction ks)
  case Nil
  show ?case by simp
next
  case (Cons k ks)
  then show ?case
    by (cases k) (simp_all add: asString_def split: option.splits)
qed

lemma of_m_tokens:
  "of_m kws q =
     (case keywordTokens kws of
        None \<Rightarrow> Inl (TypeError, q)
      | Some ts \<Rightarrow>
          (case encodeURI (joinWith (lit '','') (map trim ts)) of
             Inl e \<Rightarrow> Inl (e, q\<lparr>keywords_field := JStr (joinWith (lit '','') (map trim ts))\<rparr>)
           | Inr s \<Rightarrow> Inr (q\<lparr>keywords_field := JStr s\<rparr>)))"
proof (cases kws)
  case (JStr s)
  then show ?thesis
    by (simp add: of_m_def keywordList_def keywordTokens_def trimEach_tokens those_map_JStr
          Let_def split: sum.splits)
next
  case (JArr ks)
  then show ?thesis
    by (simp add: of_m_def keywordList_def keywordTokens_def trimEach_tokens Let_def
          split: option.splits sum.splits)
qed (simp_all add: of_m_def keywordList_def keywordTokens_def)

subsection \<open>Escaping a joined list\<close>

lemma lead_not_trail: "isLeadSurrogate c \<Longrightarrow> \<not> isTrailSurrogate c"
  by (simp add: isLeadSurrogate_def isTrailSurrogate_def word_le_nat_alt)

lemma prepend_Inr: "prepend p r = Inr s \<longleftrightarrow> (\<exists>t. r = Inr t \<and> s = p @ t)"
  by (cases r) (auto simp add: prepend_def)

lemma prepend_Inl: "prepend p r = Inl e \<longleftrightarrow> r = Inl e"
  by (cases r) (auto simp add: prepend_def)

lemma prepend_prepend: "prepend p (prepend a r) = prepend (p @ a) r"
  by (cases r) (simp_all add: prepend_def)

lemma prepend_Nil: "prepend [] r = r"
  by (cases r) (simp_all add: prepend_def)

lemma encodeURI_append:
  "encodeURI xs = Inr a \<Longrightarrow> encodeURI (xs @ ys) = prepend a (encodeURI ys)"
proof (induction xs arbitrary: a rule: encodeURI.induct)
  case 1
  then show ?case by (simp add: prepend_Nil)
next
  case (2 c cs)
  show ?case
  proof (cases "c \<in> set uriUnescapedSet")
    case True
    with 2 show ?thesis
      by (auto simp add: prepend_Inr prepend_prepend)
  next
    case False
    note esc = this
    show ?thesis
    proof (cases "isLeadSurrogate c")
      case False
      with esc 2 show ?thesis
        by (auto simp add: prepend_Inr prepend_prepend split: if_splits)
    next
      case True
      then have nt: "\<not> isTrailSurrogate c" by (rule lead_not_trail)
      from 2(4) esc True nt obtain d ds where cs: "cs = d # ds" and d: "isTrailSurrogate d"
        by (cases cs) (auto split: if_splits)
      with 2(4) esc True nt obtain t where t: "encodeURI ds = Inr t"
        and a: "a = escapeCodePoint (pairCodePoint c d) @ t"
        by (auto simp add: prepend_Inr)
      from 2(3) [OF esc nt _ cs d t] True
      have "encodeURI (ds @ ys) = prepend t (encodeURI ys)" by simp
      with esc True nt cs d a show ?thesis
        by (simp add: prepend_prepend)
    qed
  qed
qed

lemma encodeURI_comma: "encodeURI (lit '','') = Inr (lit '','')"
  by (simp add: lit_def uriUnescapedSet_def prepend_def)

lemma joinWith_Cons:
  "joinWith sep (x # xs) = (if xs = [] then x else x @ sep @ joinWith sep xs)"
  by (cases xs) simp_all

lemma encodeURI_join:
  "list_all2 (\<lambda>t e. encodeURI t = Inr e) ts es \<Longrightarrow>
     encodeURI (joinWith (lit '','') ts) = Inr (joinWith (lit '','') es)"
proof (induction ts es rule: list_all2_induct)
  case Nil
  show ?case by simp
next
  case (Cons t ts e es)
  show ?case
  proof (cases "ts = []")
    case True
    with Cons show ?thesis by simp
  next
    case False
    with Cons(2) have es: "es \<noteq> []" by auto
    have "encodeURI (lit '','' @ joinWith (lit '','') ts)
        = Inr (lit '','' @ joinWith (lit '','') es)"
      by (simp add: encodeURI_append [OF encodeURI_comma] Cons.IH prepend_def)
    then show ?thesis
      using False es
      by (simp add: joinWith_Cons encodeURI_append [OF Cons(1)] prepend_def)
  qed
qed

subsection \<open>Trimming\<close>

lemma rev_dropWhile_takeWhile:
  "t = rev (dropWhile P (rev t)) @ rev (takeWhile P (rev t))"
proof -
  have "rev t = takeWhile P (rev t) @ dropWhile P (rev t)"
    by simp
  then have "rev (rev t) = rev (takeWhile P (rev t) @ dropWhile P (rev t))"
    by (rule arg_cong)
  then show ?thesis
    by (simp only: rev_rev_ident rev_append)
qed

lemma list_all_takeWhile: "list_all P (takeWhile P xs)"
  by (induction xs) simp_all

lemma trim_decomposition:
  "\<exists>a b. s = a @ trim s @ b \<and> list_all isWhiteSpace a \<and> list_all isWhiteSpace b"
proof -
  let ?s1 = "dropWhile isWhiteSpace s"
  let ?a = "takeWhile isWhiteSpace s"
  let ?b = "rev (takeWhile isWhiteSpace (rev ?s1))"
  have "?s1 = trim s @ ?b"
    unfolding trim_def by (rule rev_dropWhile_takeWhile)
  moreover have "s = ?a @ ?s1" by simp
  ultimately have "s = ?a @ trim s @ ?b" by simp
  moreover have "list_all isWhiteSpace ?a"
    by (rule list_all_takeWhile)
  moreover have "list_all isWhiteSpace (takeWhile isWhiteSpace (rev ?s1))"
    by (rule list_all_takeWhile)
  then have "list_all isWhiteSpace ?b"
    by (simp only: list_all_rev)
  ultimately show ?thesis by blast
qed

lemma last_dropWhile: "dropWhile P xs \<noteq> [] \<Longrightarrow> last (dropWhile P xs) = last xs"
proof -
  assume "dropWhile P xs \<noteq> []"
  then have "last (takeWhile P xs @ dropWhile P xs) = last (dropWhile P xs)"
    by (rule last_appendR)
  then show ?thesis by simp
qed

lemma trim_ends:
  assumes "trim s \<noteq> []"
  shows "\<not> isWhiteSpace (hd (trim s)) \<and> \<not> isWhiteSpace (last (trim s))"
proof -
  let ?s1 = "dropWhile isWhiteSpace s"
  let ?r = "dropWhile isWhiteSpace (rev ?s1)"
  have t: "trim s = rev ?r" by (simp only: trim_def)
  have r: "?r \<noteq> []"
  proof
    assume "?r = []"
    with t have "trim s = []" by (simp only: rev.simps)
    with assms show False by simp
  qed
  then have "\<not> isWhiteSpace (hd ?r)" by (rule hd_dropWhile)
  moreover have "last (rev ?r) = hd ?r" using r by (simp only: last_rev)
  ultimately have l: "\<not> isWhiteSpace (last (trim s))" by (metis t)
  have s1: "?s1 \<noteq> []"
  proof
    assume "?s1 = []"
    then have "?r = []" by (simp only: rev.simps dropWhile.simps)
    with r show False by simp
  qed
  then have "\<not> isWhiteSpace (hd ?s1)" by (rule hd_dropWhile)
  moreover have "hd (rev ?r) = last ?r" using r by (simp only: hd_rev)
  moreover have "last ?r = last (rev ?s1)" using r by (rule last_dropWhile)
  moreover have "last (rev ?s1) = hd ?s1" using s1 by (simp only: last_rev)
  ultimately have "\<not> isWhiteSpace (hd (trim s))" by (metis t)
  with l show ?thesis by simp
qed

subsection \<open>Trimmed, escaped, joined\<close>

lemma keywordTokens_strings: "keywordTokens (JArr (map JStr ks)) = Some ks"
  by (simp add: keywordTokens_def those_map_JStr)

lemma of_m_escaped_tokens:
  assumes "keywordTokens kws = Some ts"
    and "list_all2 (\<lambda>k e. encodeURI (trim k) = Inr e) ts es"
  shows "of_m kws q = Inr (q\<lparr>keywords_field := JStr (joinWith (lit '','') es)\<rparr>)"
proof -
  from assms(2) have "list_all2 (\<lambda>t e. encodeURI t = Inr e) (map trim ts) es"
    by (simp add: list_all2_map1)
  then have "encodeURI (joinWith (lit '','') (map trim ts)) = Inr (joinWith (lit '','') es)"
    by (rule encodeURI_join)
  with assms(1) show ?thesis
    by (simp add: of_m_tokens)
qed

lemma cat_dog:
  "trim (lit ''  cat '') = lit ''cat''" "trim (lit ''dog'') = lit ''dog''"
  "encodeURI (lit ''cat,dog'') = Inr (lit ''cat,dog'')"
  "lit ''cat'' @ lit '','' @ lit ''dog'' = lit ''cat,dog''"
  by (simp_all add: trim_def isWhiteSpace_def lit_def uriUnescapedSet_def prepend_def)

text \<open>
  Claim C4. For a list of strings, and for the comma-separated pieces of a string, the
  keyword setter stores the comma-joined URI-escapes of the trimmed tokens, whenever
  each escape succeeds. \<open>trim\<close> removes whitespace, and only whitespace, from both ends.
  With \<^verbatim>\<open>["  cat ", "dog"]\<close> it stores \<^verbatim>\<open>cat,dog\<close>, and \<open>fetch\<close> without a selector
  then returns the URL it returns without keywords followed by \<^verbatim>\<open>?cat,dog\<close>.
\<close>

theorem of_trims_escapes_joins:
  "(list_all2 (\<lambda>k e. encodeURI (trim k) = Inr e) ks es \<longrightarrow>
      of_m (JArr (map JStr ks)) q
        = Inr (q\<lparr>keywords_field := JStr (joinWith (lit '','') es)\<rparr>))
   \<and> (list_all2 (\<lambda>k e. encodeURI (trim k) = Inr e) (split 0x2C s) es \<longrightarrow>
      of_m (JStr s) q = Inr (q\<lparr>keywords_field := JStr (joinWith (lit '','') es)\<rparr>))
   \<and> (\<exists>a b. k = a @ trim k @ b \<and> list_all isWhiteSpace a \<and> list_all isWhiteSpace b)
   \<and> (trim k \<noteq> [] \<longrightarrow> \<not> isWhiteSpace (hd (trim k)) \<and> \<not> isWhiteSpace (last (trim k)))
   \<and> of_m (JArr [JStr (lit ''  cat ''), JStr (lit ''dog'')]) q
       = Inr (q\<lparr>keywords_field := JStr (lit ''cat,dog'')\<rparr>)
   \<and> (\<not> truthy (id_field q) \<and> \<not> truthy (username q) \<and> \<not> truthy (category q)
        \<and> \<not> truthy (collection q) \<longrightarrow>
        fst (fetch (q\<lparr>keywords_field := JStr (lit ''cat,dog'')\<rparr>))
          = fst (fetch (q\<lparr>keywords_field := JUndefined\<rparr>)) @ lit ''?cat,dog'')"
proof (intro conjI impI)
  assume "list_all2 (\<lambda>k e. encodeURI (trim k) = Inr e) ks es"
  with keywordTokens_strings
  show "of_m (JArr (map JStr ks)) q
        = Inr (q\<lparr>keywords_field := JStr (joinWith (lit '','') es)\<rparr>)"
    by (rule of_m_escaped_tokens)
next
  assume "list_all2 (\<lambda>k e. encodeURI (trim k) = Inr e) (split 0x2C s) es"
  moreover have "keywordTokens (JStr s) = Some (split 0x2C s)"
    by (simp add: keywordTokens_def)
  ultimately show "of_m (JStr s) q
      = Inr (q\<lparr>keywords_field := JStr (joinWith (lit '','') es)\<rparr>)"
    by (rule of_m_escaped_tokens [rotated])
next
  show "\<exists>a b. k = a @ trim k @ b \<and> list_all isWhiteSpace a \<and> list_all isWhiteSpace b"
    by (rule trim_decomposition)
next
  assume t: "trim k \<noteq> []"
  from trim_ends [OF t] show "\<not> isWhiteSpace (hd (trim k))" by simp
next
  assume t: "trim k \<noteq> []"
  from trim_ends [OF t] show "\<not> isWhiteSpace (last (trim k))" by simp
next
  have "keywordTokens (JArr [JStr (lit ''  cat ''), JStr (lit ''dog'')])
      = Some [lit ''  cat '', lit ''dog'']"
    by (simp add: keywordTokens_def asString_def)
  then show "of_m (JArr [JStr (lit ''  cat ''), JStr (lit ''dog'')]) q
       = Inr (q\<lparr>keywords_field := JStr (lit ''cat,dog'')\<rparr>)"
    by (simp add: of_m_tokens cat_dog)
next
  assume "\<not> truthy (id_field q) \<and> \<not> truthy (username q) \<and> \<not> truthy (category q)
        \<and> \<not> truthy (collection q)"
  moreover have "lit ''cat,dog'' \<noteq> []" "lit ''?'' @ lit ''cat,dog'' = lit ''?cat,dog''"
    by (simp_all add: lit_def)
  ultimately show "fst (fetch (q\<lparr>keywords_field := JStr (lit ''cat,dog'')\<rparr>))
          = fst (fetch (q\<lparr>keywords_field := JUndefined\<rparr>)) @ lit ''?cat,dog''"
    by (simp add: fst_fetch serialization_def noSelectorBranch_def scopeSegment_def
          dimensionSegment_def randomizationSegment_def keywordSegment_def)
qed

theorem of_trims_escapes_joins_witness:
  "list_all2 (\<lambda>k e. encodeURI (trim k) = Inr e)
      (split 0x2C (lit ''a b, c'')) [lit ''a%20b'', lit ''c'']
   \<and> of_m (JStr (lit ''a b, c'')) new_UnsplashPhoto
       = Inr (new_UnsplashPhoto\<lparr>keywords_field := JStr (lit ''a%20b,c'')\<rparr>)
   \<and> of_m (JArr [JStr (lit ''  cat ''), JStr (lit ''dog'')]) new_UnsplashPhoto
       = Inr (new_UnsplashPhoto\<lparr>keywords_field := JStr (lit ''cat,dog'')\<rparr>)
   \<and> fst (fetch (new_UnsplashPhoto\<lparr>keywords_field := JStr (lit ''cat,dog'')\<rparr>))
       = lit ''https://source.unsplash.com/random?cat,dog''"
proof -
  have t: "list_all2 (\<lambda>k e. encodeURI (trim k) = Inr e)
      (split 0x2C (lit ''a b, c'')) [lit ''a%20b'', lit ''c'']"
    by (simp add: trim_def isWhiteSpace_def lit_def uriUnescapedSet_def prepend_def
          isLeadSurrogate_def isTrailSurrogate_def escapeCodePoint_def utf8_def
          percentOctet_def hexDigit_def)
  have j: "lit ''a%20b'' @ lit '','' @ lit ''c'' = lit ''a%20b,c''"
    by (simp add: lit_def)
  have f: "fst (fetch (new_UnsplashPhoto\<lparr>keywords_field := JUndefined\<rparr>)) @ lit ''?cat,dog''
      = lit ''https://source.unsplash.com/random?cat,dog''"
    by (simp add: fst_fetch eval_defs)
  have n: "\<not> truthy (id_field new_UnsplashPhoto) \<and> \<not> truthy (username new_UnsplashPhoto)
      \<and> \<not> truthy (category new_UnsplashPhoto) \<and> \<not> truthy (collection new_UnsplashPhoto)"
    by (simp add: new_UnsplashPhoto_def)
  from of_trims_escapes_joins
      [where q = new_UnsplashPhoto and s = "lit ''a b, c''"
         and es = "[lit ''a%20b'', lit ''c'']" and ks = "[]" and k = "[]"] t n
  have "of_m (JStr (lit ''a b, c'')) new_UnsplashPhoto
      = Inr (new_UnsplashPhoto
          \<lparr>keywords_field := JStr (joinWith (lit '','') [lit ''a%20b'', lit ''c''])\<rparr>)"
    and "of_m (JArr [JStr (lit ''  cat ''), JStr (lit ''dog'')]) new_UnsplashPhoto
       = Inr (new_UnsplashPhoto\<lparr>keywords_field := JStr (lit ''cat,dog'')\<rparr>)"
    and "fst (fetch (new_UnsplashPhoto\<lparr>keywords_field := JStr (lit ''cat,dog'')\<rparr>))
       = fst (fetch (new_UnsplashPhoto\<lparr>keywords_field := JUndefined\<rparr>)) @ lit ''?cat,dog''"
    by blast+
  with t show ?thesis
    by (simp add: j f)
qed

section \<open>Unrecognized randomization intervals\<close>

text \<open>
  Claim C5. For a string other than \<^verbatim>\<open>"daily"\<close> and \<^verbatim>\<open>"weekly"\<close>, \<open>randomize\<close> sets the
  interval to \<^verbatim>\<open>"perRequest"\<close>. On a fresh object, and on any object whose interval is
  still the default, \<open>fetch\<close> after such a call returns what it returns without the call.
\<close>

theorem randomize_unrecognized_resets:
  "s \<noteq> lit ''daily'' \<and> s \<noteq> lit ''weekly'' \<longrightarrow>
     randomize (JStr s) q = q\<lparr>randomizationInterval := JStr (lit ''perRequest'')\<rparr>
     \<and> fetch (randomize (JStr s) new_UnsplashPhoto) = fetch new_UnsplashPhoto
     \<and> (randomizationInterval q = JStr (lit ''perRequest'') \<longrightarrow>
          fetch (randomize (JStr s) q) = fetch q)"
proof (intro impI conjI)
  assume s: "s \<noteq> lit ''daily'' \<and> s \<noteq> lit ''weekly''"
  then show r: "randomize (JStr s) q = q\<lparr>randomizationInterval := JStr (lit ''perRequest'')\<rparr>"
    by (simp add: randomize_def)
  from s show "fetch (randomize (JStr s) new_UnsplashPhoto) = fetch new_UnsplashPhoto"
    by (simp add: randomize_def new_UnsplashPhoto_def)
  assume d: "randomizationInterval q = JStr (lit ''perRequest'')"
  have "q\<lparr>randomizationInterval := randomizationInterval q\<rparr> = q"
    by simp
  with d have "randomize (JStr s) q = q"
    using s by (simp add: randomize_def)
  then show "fetch (randomize (JStr s) q) = fetch q"
    by simp
qed

theorem randomize_unrecognized_resets_witness:
  "lit ''monthly'' \<noteq> lit ''daily'' \<and> lit ''monthly'' \<noteq> lit ''weekly''
   \<and> randomizationInterval (randomize (JStr (lit ''monthly''))
         (randomize (JStr (lit ''daily'')) new_UnsplashPhoto)) = JStr (lit ''perRequest'')
   \<and> fetch (randomize (JStr (lit ''monthly'')) new_UnsplashPhoto) = fetch new_UnsplashPhoto"
proof -
  have h: "lit ''monthly'' \<noteq> lit ''daily'' \<and> lit ''monthly'' \<noteq> lit ''weekly''"
    by (simp add: lit_def)
  from randomize_unrecognized_resets
    [where s = "lit ''monthly''" and q = "randomize (JStr (lit ''daily'')) new_UnsplashPhoto"] h
  have "randomize (JStr (lit ''monthly'')) (randomize (JStr (lit ''daily'')) new_UnsplashPhoto)
      = (randomize (JStr (lit ''daily'')) new_UnsplashPhoto)
          \<lparr>randomizationInterval := JStr (lit ''perRequest'')\<rparr>"
    and "fetch (randomize (JStr (lit ''monthly'')) new_UnsplashPhoto) = fetch new_UnsplashPhoto"
    by simp_all
  with h show ?thesis by simp
qed

section \<open>Dimensions\<close>

text \<open>
  Claim C6. \<^verbatim>\<open>_appendDimensions\<close> appends \<^verbatim>\<open>/<w>x<h>\<close> when width and height are both
  truthy and nothing otherwise. The dimensions reach the URL of \<open>fetch\<close> through this
  segment only. When width or height is falsy (zero, unset), \<open>fetch\<close> returns what it
  returns for an object without dimensions.
\<close>

theorem dimension_segment_needs_both:
  "fst (appendDimensions q) = url q @
      (if truthy (width (dimensions q)) \<and> truthy (height (dimensions q))
       then lit ''/'' @ toString (width (dimensions q)) @ lit ''x''
              @ toString (height (dimensions q))
       else [])
   \<and> (\<exists>pre post. \<forall>d. fst (fetch (q\<lparr>dimensions := d\<rparr>))
          = url q @ pre @ dimensionSegment (q\<lparr>dimensions := d\<rparr>) @ post)
   \<and> (\<not> (truthy (width (dimensions q)) \<and> truthy (height (dimensions q))) \<longrightarrow>
         fst (fetch q)
           = fst (fetch (q\<lparr>dimensions := \<lparr>width = JUndefined, height = JUndefined\<rparr>\<rparr>)))"
proof (intro conjI)
  show "fst (appendDimensions q) = url q @
      (if truthy (width (dimensions q)) \<and> truthy (height (dimensions q))
       then lit ''/'' @ toString (width (dimensions q)) @ lit ''x''
              @ toString (height (dimensions q))
       else [])"
    by (simp add: appendDimensions_eq dimensionSegment_def)
next
  let ?pre = "if truthy (id_field q) then lit ''/'' @ toString (id_field q)
      else if truthy (username q) then lit ''/user/'' @ toString (username q) @ scopeSegment q
      else if truthy (category q) then lit ''/category/'' @ toString (category q) @ scopeSegment q
      else if truthy (collection q) then lit ''/collection/'' @ toString (collection q) @ scopeSegment q
      else scopeSegment q"
  let ?post = "if truthy (id_field q) then []
      else if truthy (username q) \<or> truthy (category q) \<or> truthy (collection q)
      then randomizationSegment False q @ keywordSegment q
      else randomizationSegment True q @ keywordSegment q"
  have "\<forall>d. fst (fetch (q\<lparr>dimensions := d\<rparr>))
          = url q @ ?pre @ dimensionSegment (q\<lparr>dimensions := d\<rparr>) @ ?post"
    by (simp add: fst_fetch serialization_def idBranch_def selectorBranch_def
        noSelectorBranch_def scopeSegment_def randomizationSegment_def keywordSegment_def)
  then show "\<exists>pre post. \<forall>d. fst (fetch (q\<lparr>dimensions := d\<rparr>))
          = url q @ pre @ dimensionSegment (q\<lparr>dimensions := d\<rparr>) @ post"
    by blast
next
  show "\<not> (truthy (width (dimensions q)) \<and> truthy (height (dimensions q))) \<longrightarrow>
         fst (fetch q)
           = fst (fetch (q\<lparr>dimensions := \<lparr>width = JUndefined, height = JUndefined\<rparr>\<rparr>))"
    by (simp add: fst_fetch serialization_def idBranch_def selectorBranch_def
        noSelectorBranch_def scopeSegment_def randomizationSegment_def keywordSegment_def
        dimensionSegment_def)
qed

theorem dimension_segment_needs_both_witness:
  "\<not> truthy (height (dimensions (height_m (JNum (SafeInt 0)) (width_m (JNum (SafeInt 300)) new_UnsplashPhoto))))
   \<and> fst (fetch (height_m (JNum (SafeInt 0)) (width_m (JNum (SafeInt 300)) new_UnsplashPhoto)))
       = fst (fetch new_UnsplashPhoto)
   \<and> \<not> truthy (height (dimensions (width_m (JNum (SafeInt 300)) new_UnsplashPhoto)))
   \<and> fst (fetch (width_m (JNum (SafeInt 300)) new_UnsplashPhoto))
       = lit ''https://source.unsplash.com/random''"
proof -
  let ?Z = "height_m (JNum (SafeInt 0)) (width_m (JNum (SafeInt 300)) new_UnsplashPhoto)"
  let ?W = "width_m (JNum (SafeInt 300)) new_UnsplashPhoto"
  have h: "\<not> truthy (height (dimensions ?Z))" "\<not> truthy (height (dimensions ?W))"
    by (simp_all add: height_m_def width_m_def new_UnsplashPhoto_def)
  have e: "?Z\<lparr>dimensions := \<lparr>width = JUndefined, height = JUndefined\<rparr>\<rparr> = new_UnsplashPhoto"
    "?W\<lparr>dimensions := \<lparr>width = JUndefined, height = JUndefined\<rparr>\<rparr> = new_UnsplashPhoto"
    by (simp_all add: height_m_def width_m_def new_UnsplashPhoto_def)
  have v: "fst (fetch new_UnsplashPhoto) = lit ''https://source.unsplash.com/random''"
    by (simp add: fst_fetch eval_defs)
  from dimension_segment_needs_both [of ?Z] h(1)
  have "fst (fetch ?Z)
      = fst (fetch (?Z\<lparr>dimensions := \<lparr>width = JUndefined, height = JUndefined\<rparr>\<rparr>))"
    by blast
  then have z: "fst (fetch ?Z) = fst (fetch new_UnsplashPhoto)"
    by (simp only: e)
  from dimension_segment_needs_both [of ?W] h(2)
  have "fst (fetch ?W)
      = fst (fetch (?W\<lparr>dimensions := \<lparr>width = JUndefined, height = JUndefined\<rparr>\<rparr>))"
    by blast
  then have w: "fst (fetch ?W) = lit ''https://source.unsplash.com/random''"
    by (simp only: e v)
  from h z w show ?thesis by blast
qed

section \<open>The end-to-end example\<close>

text \<open>
  Claim C7. On a fresh object, \<^verbatim>\<open>featured()\<close>, then \<^verbatim>\<open>size(200, 200)\<close>, then
  \<^verbatim>\<open>fetch()\<close> returns \<^verbatim>\<open>https://source.unsplash.com/featured/200x200/random\<close>.
\<close>

theorem featured_size_200_example:
  "fst (fetch (size_m (JNum (SafeInt 200)) (JNum (SafeInt 200)) (featured new_UnsplashPhoto)))
     = lit ''https://source.unsplash.com/featured/200x200/random''"
  by (simp add: fst_fetch eval_defs)

section \<open>Which calls throw\<close>

subsection \<open>\<^verbatim>\<open>encodeURI\<close> throws on unpaired surrogates only\<close>

lemma surrogate_not_unescaped:
  "isLeadSurrogate c \<or> isTrailSurrogate c \<Longrightarrow> c \<notin> set uriUnescapedSet"
  by (auto simp add: uriUnescapedSet_def lit_def isLeadSurrogate_def isTrailSurrogate_def)

lemma encodeURI_only_URIError: "encodeURI s = Inl e \<Longrightarrow> e = URIError"
  by (induction s rule: encodeURI.induct)
    (auto simp add: prepend_Inl split: if_splits list.splits)

lemma encodeURI_succeeds_iff:
  "(\<exists>r. encodeURI s = Inr r) \<longleftrightarrow> \<not> hasUnpairedSurrogate s"
proof (induction s rule: hasUnpairedSurrogate.induct)
  case 1
  show ?case by simp
next
  case (2 c)
  show ?case
    using surrogate_not_unescaped [of c]
    by (auto simp add: prepend_def)
next
  case (3 c d ds)
  then show ?case
    using surrogate_not_unescaped [of c] lead_not_trail [of c]
    by (auto simp add: prepend_Inr)
qed

lemma encodeURI_fails_iff: "encodeURI s = Inl e \<longleftrightarrow> e = URIError \<and> hasUnpairedSurrogate s"
proof
  assume a: "encodeURI s = Inl e"
  then have "e = URIError" by (rule encodeURI_only_URIError)
  moreover from a have "\<not> (\<exists>r. encodeURI s = Inr r)" by simp
  then have "hasUnpairedSurrogate s" by (simp only: encodeURI_succeeds_iff) simp
  ultimately show "e = URIError \<and> hasUnpairedSurrogate s" by simp
next
  assume a: "e = URIError \<and> hasUnpairedSurrogate s"
  then have "\<not> (\<exists>r. encodeURI s = Inr r)" by (simp only: encodeURI_succeeds_iff) simp
  then obtain e' where e': "encodeURI s = Inl e'" by (cases "encodeURI s") auto
  then have "e' = URIError" by (rule encodeURI_only_URIError)
  with a e' show "encodeURI s = Inl e" by simp
qed

subsection \<open>Unpaired surrogates of the trimmed, joined tokens\<close>

lemma hasUnpairedSurrogate_append:
  "xs = [] \<or> ys = [] \<or> \<not> isLeadSurrogate (last xs) \<or> \<not> isTrailSurrogate (hd ys) \<Longrightarrow>
     hasUnpairedSurrogate (xs @ ys) = (hasUnpairedSurrogate xs \<or> hasUnpairedSurrogate ys)"
proof (induction xs rule: hasUnpairedSurrogate.induct)
  case 1
  show ?case by simp
next
  case (2 c)
  then show ?case by (cases ys) auto
next
  case (3 c d ds)
  then show ?case by (cases "ds = []") auto
qed

lemma hasUnpairedSurrogate_append_left:
  "xs = [] \<or> \<not> isLeadSurrogate (last xs) \<Longrightarrow>
     hasUnpairedSurrogate (xs @ ys) = (hasUnpairedSurrogate xs \<or> hasUnpairedSurrogate ys)"
  using hasUnpairedSurrogate_append by blast

lemma hasUnpairedSurrogate_append_right:
  "ys = [] \<or> \<not> isTrailSurrogate (hd ys) \<Longrightarrow>
     hasUnpairedSurrogate (xs @ ys) = (hasUnpairedSurrogate xs \<or> hasUnpairedSurrogate ys)"
  using hasUnpairedSurrogate_append by blast

lemma whitespace_not_surrogate:
  "isWhiteSpace c \<Longrightarrow> \<not> isLeadSurrogate c \<and> \<not> isTrailSurrogate c"
  by (auto simp add: isWhiteSpace_def isLeadSurrogate_def isTrailSurrogate_def)

lemma whitespace_no_unpaired: "list_all isWhiteSpace a \<Longrightarrow> \<not> hasUnpairedSurrogate a"
proof (induction a rule: hasUnpairedSurrogate.induct)
  case 1
  show ?case by simp
next
  case (2 c)
  then show ?case using whitespace_not_surrogate [of c] by simp
next
  case (3 c d ds)
  then show ?case using whitespace_not_surrogate [of c] by simp
qed

lemma hasUnpairedSurrogate_trim: "hasUnpairedSurrogate (trim s) = hasUnpairedSurrogate s"
proof -
  obtain a b where s: "s = a @ trim s @ b" and a: "list_all isWhiteSpace a"
    and b: "list_all isWhiteSpace b"
    using trim_decomposition by blast
  have "b = [] \<or> \<not> isTrailSurrogate (hd b)"
    using b whitespace_not_surrogate [of "hd b"] by (cases b) auto
  then have "hasUnpairedSurrogate (trim s @ b)
      = (hasUnpairedSurrogate (trim s) \<or> hasUnpairedSurrogate b)"
    by (rule hasUnpairedSurrogate_append_right)
  then have tb: "hasUnpairedSurrogate (trim s @ b) = hasUnpairedSurrogate (trim s)"
    using whitespace_no_unpaired [OF b] by simp
  have "a = [] \<or> \<not> isLeadSurrogate (last a)"
    using a whitespace_not_surrogate [of "last a"]
    by (cases a rule: rev_cases) auto
  then have "hasUnpairedSurrogate (a @ (trim s @ b))
      = (hasUnpairedSurrogate a \<or> hasUnpairedSurrogate (trim s @ b))"
    by (rule hasUnpairedSurrogate_append_left)
  then have "hasUnpairedSurrogate (a @ (trim s @ b)) = hasUnpairedSurrogate (trim s @ b)"
    using whitespace_no_unpaired [OF a] by simp
  with s tb show ?thesis by metis
qed

lemma comma_not_surrogate:
  "\<not> isLeadSurrogate 0x2C" "\<not> isTrailSurrogate 0x2C" "\<not> hasUnpairedSurrogate (lit '','')"
  by (simp_all add: isLeadSurrogate_def isTrailSurrogate_def lit_def)

lemma hasUnpairedSurrogate_join:
  "hasUnpairedSurrogate (joinWith (lit '','') ts) = list_ex hasUnpairedSurrogate ts"
proof (induction ts)
  case Nil
  show ?case by simp
next
  case (Cons t ts)
  show ?case
  proof (cases "ts = []")
    case True
    then show ?thesis by simp
  next
    case False
    let ?r = "joinWith (lit '','') ts"
    have c: "lit '','' = [0x2C]" by (simp add: lit_def)
    have "lit '','' = [] \<or> \<not> isLeadSurrogate (last (lit '',''))"
      using comma_not_surrogate by (simp add: c)
    then have "hasUnpairedSurrogate (lit '','' @ ?r)
        = (hasUnpairedSurrogate (lit '','') \<or> hasUnpairedSurrogate ?r)"
      by (rule hasUnpairedSurrogate_append_left)
    then have 1: "hasUnpairedSurrogate (lit '','' @ ?r) = hasUnpairedSurrogate ?r"
      using comma_not_surrogate(3) by simp
    have "lit '','' @ ?r = [] \<or> \<not> isTrailSurrogate (hd (lit '','' @ ?r))"
      using comma_not_surrogate by (simp add: c)
    then have "hasUnpairedSurrogate (t @ (lit '','' @ ?r))
        = (hasUnpairedSurrogate t \<or> hasUnpairedSurrogate (lit '','' @ ?r))"
      by (rule hasUnpairedSurrogate_append_right)
    with 1 have "hasUnpairedSurrogate (t @ lit '','' @ ?r)
        = (hasUnpairedSurrogate t \<or> hasUnpairedSurrogate ?r)"
      by simp
    then show ?thesis
      using False Cons by (simp add: joinWith_Cons)
  qed
qed

lemma unpaired_in_trimmed_join:
  "hasUnpairedSurrogate (joinWith (lit '','') (map trim ts)) = list_ex hasUnpairedSurrogate ts"
  by (simp add: hasUnpairedSurrogate_join list_ex_iff hasUnpairedSurrogate_trim)


subsection \<open>Conversions that throw\<close>

text \<open>A conversion throws exactly on the values singled out above.\<close>

lemma firstThrow_throws: "(\<exists>e. firstThrow rs = Inl e) \<longleftrightarrow> list_ex isl rs"
  by (induction rs rule: firstThrow.induct) (auto split: sum.splits)

lemma list_ex_map: "list_ex P (map f xs) = list_ex (\<lambda>x. P (f x)) xs"
  by (induction xs) simp_all

lemma list_ex_cong_set:
  "(\<And>x. x \<in> set xs \<Longrightarrow> P x = Q x) \<Longrightarrow> list_ex P xs = list_ex Q xs"
  by (induction xs) simp_all

lemma toString_x_throws: "(\<exists>e. toString_x v = Inl e) \<longleftrightarrow> unconvertible v"
proof (induction v)
  case (AArr xs)
  have "list_ex isl (map (\<lambda>x. if x = AUndefined \<or> x = ANull then Inr [] else toString_x x) xs)
      \<longleftrightarrow> list_ex unconvertible xs"
  proof -
    have "isl (if x = AUndefined \<or> x = ANull then Inr [] else toString_x x) \<longleftrightarrow> unconvertible x"
      if "x \<in> set xs" for x
      using AArr [OF that] by (cases "toString_x x") auto
    then have "list_ex (\<lambda>x. isl (if x = AUndefined \<or> x = ANull then Inr [] else toString_x x)) xs
        = list_ex unconvertible xs"
      by (rule list_ex_cong_set)
    then show ?thesis
      by (simp only: list_ex_map)
  qed
  then have "(\<exists>e. firstThrow
      (map (\<lambda>x. if x = AUndefined \<or> x = ANull then Inr [] else toString_x x) xs) = Inl e)
      \<longleftrightarrow> list_ex unconvertible xs"
    by (simp only: firstThrow_throws)
  then show ?case
    by (auto split: sum.splits)
next
  case (AObject c)
  then show ?case by (cases c) auto
qed simp_all

lemma plus_x_throws: "(\<exists>e. plus_x s v = Inl e) \<longleftrightarrow> unconvertible v"
  using toString_x_throws [of v] by (auto simp add: plus_x_def split: sum.splits)

lemma plus_x_Inl: "plus_x s v = Inl e \<Longrightarrow> unconvertible v"
  using plus_x_throws by blast

lemma plus_x_Inr: "plus_x s v = Inr a \<Longrightarrow> \<not> unconvertible v"
  using plus_x_throws [of s v] by auto

lemma looseEqLit_x_throws: "(\<exists>e. looseEqLit_x v l = Inl e) \<longleftrightarrow> incomparable v"
proof (cases v)
  case (AArr xs)
  then show ?thesis
    using toString_x_throws [of "AArr xs"] by (auto split: sum.splits)
next
  case (AObject c)
  then show ?thesis by (cases c) auto
qed simp_all

subsection \<open>Serialization steps that throw\<close>

text \<open>Each step throws, leaving the object as it was, or returns the URL and stores
  it; which of the two does not depend on the URL.\<close>

lemma throws_url_update [simp]:
  "dimensionsThrow (q\<lparr>url := u\<rparr>) = dimensionsThrow q"
  "keywordsThrow (q\<lparr>url := u\<rparr>) = keywordsThrow q"
  "selectorThrows (q\<lparr>url := u\<rparr>) = selectorThrows q"
  by (simp_all add: dimensionsThrow_def keywordsThrow_def selectorThrows_def hasDimensions_x_def)

lemma andThen_Inl: "r = Inl x \<Longrightarrow> andThen r f = Inl x"
  by (simp add: andThen_def)

lemma andThen_Inr: "r = Inr (a, s) \<Longrightarrow> andThen r f = f s"
  by (simp add: andThen_def)

lemma appendScope_x_returns: "\<exists>s. appendScope_x q = (s, q\<lparr>url := s\<rparr>)"
  by (simp add: appendScope_x_def Let_def)

lemma appendDimensions_x_throws:
  "dimensionsThrow q \<Longrightarrow> \<exists>e. appendDimensions_x q = Inl (e, q)"
  by (auto simp add: dimensionsThrow_def appendDimensions_x_def split: sum.splits
        dest: plus_x_Inr)

lemma appendDimensions_x_returns:
  "\<not> dimensionsThrow q \<Longrightarrow> \<exists>s. appendDimensions_x q = Inr (s, q\<lparr>url := s\<rparr>)"
  by (auto simp add: dimensionsThrow_def appendDimensions_x_def Let_def split: sum.splits
        dest: plus_x_Inl)

lemma appendKeywords_x_throws:
  "keywordsThrow q \<Longrightarrow> \<exists>e. appendKeywords_x q = Inl (e, q)"
  by (auto simp add: keywordsThrow_def appendKeywords_x_def split: sum.splits
        dest: plus_x_Inr)

lemma appendKeywords_x_returns:
  "\<not> keywordsThrow q \<Longrightarrow> \<exists>s. appendKeywords_x q = Inr (s, q\<lparr>url := s\<rparr>)"
  by (auto simp add: keywordsThrow_def appendKeywords_x_def Let_def split: sum.splits
        dest: plus_x_Inl)

lemma appendRandomization_x_throws:
  "incomparable (randomizationInterval q) \<Longrightarrow> \<exists>e. appendRandomization_x b q = Inl (e, q)"
  using looseEqLit_x_throws [of "randomizationInterval q" "lit ''perRequest''"]
    looseEqLit_x_throws [of "randomizationInterval q" "lit ''daily''"]
  by (auto simp add: appendRandomization_x_def split: sum.splits bool.splits)

lemma appendRandomization_x_returns:
  "\<not> incomparable (randomizationInterval q) \<Longrightarrow>
     \<exists>s. appendRandomization_x b q = Inr (s, q\<lparr>url := s\<rparr>)"
  using looseEqLit_x_throws [of "randomizationInterval q" "lit ''perRequest''"]
    looseEqLit_x_throws [of "randomizationInterval q" "lit ''daily''"]
    looseEqLit_x_throws [of "randomizationInterval q" "lit ''weekly''"]
  by (auto simp add: appendRandomization_x_def Let_def split: sum.splits bool.splits)

lemma appendRest_x_throws:
  "(\<exists>x. appendRest_x b q = Inl x)
     \<longleftrightarrow> dimensionsThrow q \<or> incomparable (randomizationInterval q) \<or> keywordsThrow q"
proof -
  obtain s2 where 2: "appendScope_x q = (s2, q\<lparr>url := s2\<rparr>)"
    using appendScope_x_returns by blast
  let ?q2 = "q\<lparr>url := s2\<rparr>"
  show ?thesis
  proof (cases "dimensionsThrow q")
    case True
    then obtain e where "appendDimensions_x ?q2 = Inl (e, ?q2)"
      using appendDimensions_x_throws [of ?q2] by auto
    with True 2 show ?thesis
      by (simp add: appendRest_x_def andThen_def)
  next
    case d: False
    then obtain s3 where 3: "appendDimensions_x ?q2 = Inr (s3, ?q2\<lparr>url := s3\<rparr>)"
      using appendDimensions_x_returns [of ?q2] by auto
    let ?q3 = "q\<lparr>url := s3\<rparr>"
    show ?thesis
    proof (cases "incomparable (randomizationInterval q)")
      case True
      then obtain e where "appendRandomization_x b ?q3 = Inl (e, ?q3)"
        using appendRandomization_x_throws [of ?q3 b] by auto
      with True 2 3 show ?thesis
        by (simp add: appendRest_x_def andThen_def)
    next
      case r: False
      then obtain s4 where 4: "appendRandomization_x b ?q3 = Inr (s4, ?q3\<lparr>url := s4\<rparr>)"
        using appendRandomization_x_returns [of ?q3 b] by auto
      let ?q4 = "q\<lparr>url := s4\<rparr>"
      show ?thesis
      proof (cases "keywordsThrow q")
        case True
        then obtain e where "appendKeywords_x ?q4 = Inl (e, ?q4)"
          using appendKeywords_x_throws [of ?q4] by auto
        with True 2 3 4 show ?thesis
          by (simp add: appendRest_x_def andThen_def)
      next
        case False
        then obtain s5 where "appendKeywords_x ?q4 = Inr (s5, ?q4\<lparr>url := s5\<rparr>)"
          using appendKeywords_x_returns [of ?q4] by auto
        with False d r 2 3 4 show ?thesis
          by (simp add: appendRest_x_def andThen_def)
      qed
    qed
  qed
qed

lemma fetch_x_throws: "(\<exists>x. fetch_x q = Inl x) \<longleftrightarrow> fetchThrows q"
proof (cases "truthy_x (id_field q)")
  case True
  show ?thesis
  proof (cases "unconvertible (id_field q)")
    case u: True
    then obtain e where "plus_x (lit ''/'') (id_field q) = Inl e"
      using plus_x_throws by blast
    with True u show ?thesis
      by (simp add: fetch_x_def fetchThrows_def)
  next
    case u: False
    then obtain a where a: "plus_x (lit ''/'') (id_field q) = Inr a"
      using plus_x_throws [of "lit ''/''" "id_field q"]
      by (cases "plus_x (lit ''/'') (id_field q)") auto
    let ?q1 = "q\<lparr>url := url q @ a\<rparr>"
    show ?thesis
    proof (cases "dimensionsThrow q")
      case d: True
      then obtain e where "appendDimensions_x ?q1 = Inl (e, ?q1)"
        using appendDimensions_x_throws [of ?q1] by auto
      with True u a d show ?thesis
        by (simp add: fetch_x_def fetchThrows_def andThen_def)
    next
      case d: False
      then obtain s where "appendDimensions_x ?q1 = Inr (s, ?q1\<lparr>url := s\<rparr>)"
        using appendDimensions_x_returns [of ?q1] by auto
      with True u a d show ?thesis
        by (simp add: fetch_x_def fetchThrows_def andThen_def)
    qed
  qed
next
  case False
  have sel: "(\<exists>x. (case plus_x p v of Inl e \<Rightarrow> Inl (e, q)
               | Inr a \<Rightarrow> appendRest_x False (q\<lparr>url := url q @ a\<rparr>)) = Inl x)
      \<longleftrightarrow> unconvertible v \<or> dimensionsThrow q \<or> incomparable (randomizationInterval q)
          \<or> keywordsThrow q" for p v
  proof (cases "plus_x p v")
    case (Inl e)
    then have "unconvertible v" using plus_x_throws by blast
    with Inl show ?thesis by simp
  next
    case (Inr a)
    then have "\<not> unconvertible v" using plus_x_throws [of p v] by auto
    with Inr show ?thesis
      using appendRest_x_throws [of False "q\<lparr>url := url q @ a\<rparr>"] by simp
  qed
  from False show ?thesis
    using sel [of "lit ''/user/''" "username q"] sel [of "lit ''/category/''" "category q"]
      sel [of "lit ''/collection/''" "collection q"] appendRest_x_throws [of True q]
    by (simp add: fetch_x_def fetchThrows_def selectorThrows_def)
qed

lemma randomize_x_throws:
  "(\<exists>e q'. randomize_x v q = Inl (e, q')) \<longleftrightarrow> incomparable v"
  using looseEqLit_x_throws [of v "lit ''daily''"] looseEqLit_x_throws [of v "lit ''weekly''"]
  by (auto simp add: randomize_x_def split: sum.splits bool.splits)

subsection \<open>The keyword setter on all values\<close>

lemma those_None_iff: "those xs = None \<longleftrightarrow> list_ex (\<lambda>x. x = None) xs"
  by (induction xs) (auto split: option.splits)

lemma those_map_AStr: "those (map (asString_x \<circ> AStr) ts) = Some ts"
  by (induction ts) (simp_all add: asString_x_def)

lemma trimEach_x_tokens:
  "trimEach_x ks =
     (case those (map asString_x ks) of None \<Rightarrow> Inl TypeError | Some ts \<Rightarrow> Inr (map trim ts))"
proof (induction ks)
  case Nil
  show ?case by simp
next
  case (Cons k ks)
  then show ?case
    by (cases k) (simp_all add: asString_x_def split: option.splits)
qed

lemma of_x_tokens:
  "of_x kws q =
     (case keywordTokens_x kws of
        None \<Rightarrow> Inl (TypeError, q)
      | Some ts \<Rightarrow>
          (case encodeURI (joinWith (lit '','') (map trim ts)) of
             Inl e \<Rightarrow> Inl (e, q\<lparr>keywords_field := AStr (joinWith (lit '','') (map trim ts))\<rparr>)
           | Inr s \<Rightarrow> Inr (q\<lparr>keywords_field := AStr s\<rparr>)))"
proof (cases kws)
  case (AStr s)
  then show ?thesis
    by (simp add: of_x_def keywordList_x_def keywordTokens_x_def trimEach_x_tokens
          those_map_AStr Let_def split: sum.splits)
next
  case (AArr ks)
  then show ?thesis
    by (simp add: of_x_def keywordList_x_def keywordTokens_x_def trimEach_x_tokens Let_def
          split: option.splits sum.splits)
qed (simp_all add: of_x_def keywordList_x_def keywordTokens_x_def)

lemma keywordTokens_x_None_iff:
  "keywordTokens_x kws = None \<longleftrightarrow>
     (case kws of
        AStr s \<Rightarrow> False
      | AArr ks \<Rightarrow> list_ex (\<lambda>k. asString_x k = None) ks
      | _ \<Rightarrow> True)"
  by (cases kws) (force simp add: keywordTokens_x_def those_None_iff list_ex_iff)+

lemma of_x_raises_iff:
  "of_x kws q = Inl (e, q') \<longleftrightarrow>
     (case keywordTokens_x kws of
        None \<Rightarrow> e = TypeError \<and> q' = q
      | Some ts \<Rightarrow>
          list_ex hasUnpairedSurrogate ts \<and> e = URIError
          \<and> q' = q\<lparr>keywords_field := AStr (joinWith (lit '','') (map trim ts))\<rparr>)"
proof (cases "keywordTokens_x kws")
  case None
  then show ?thesis by (auto simp add: of_x_tokens)
next
  case (Some ts)
  show ?thesis
  proof (cases "encodeURI (joinWith (lit '','') (map trim ts))")
    case (Inl e')
    then have "e' = URIError \<and> list_ex hasUnpairedSurrogate ts"
      by (simp add: encodeURI_fails_iff unpaired_in_trimmed_join)
    with Some Inl show ?thesis by (auto simp add: of_x_tokens)
  next
    case (Inr r)
    then have "\<not> list_ex hasUnpairedSurrogate ts"
      using encodeURI_succeeds_iff [of "joinWith (lit '','') (map trim ts)"]
      by (simp add: unpaired_in_trimmed_join)
    with Some Inr show ?thesis by (simp add: of_x_tokens)
  qed
qed

lemma of_x_throws:
  "(\<exists>e q'. of_x kws q = Inl (e, q')) \<longleftrightarrow>
     (case keywordTokens_x kws of None \<Rightarrow> True | Some ts \<Rightarrow> list_ex hasUnpairedSurrogate ts)"
  by (cases "keywordTokens_x kws") (simp_all add: of_x_raises_iff)

subsection \<open>Data values\<close>

text \<open>On data values no conversion throws, and every method of the second part
  computes what the method of the first part computes.\<close>

lemma embed_nullish [simp]:
  "embed v = AUndefined \<longleftrightarrow> v = JUndefined" "embed v = ANull \<longleftrightarrow> v = JNull"
  by (cases v; simp)+

lemma truthy_x_embed [simp]: "truthy_x (embed v) = truthy v"
  by (cases v) simp_all

lemma firstThrow_map_Inr:
  "(\<And>x. x \<in> set xs \<Longrightarrow> f x = Inr (g x)) \<Longrightarrow> firstThrow (map f xs) = Inr (map g xs)"
  by (induction xs) simp_all

lemma toString_x_embed [simp]: "toString_x (embed v) = Inr (toString v)"
proof (induction v)
  case (JArr xs)
  have "firstThrow (map (\<lambda>x. if x = AUndefined \<or> x = ANull then Inr [] else toString_x x)
          (map embed xs))
      = Inr (map (\<lambda>x. if x = JUndefined \<or> x = JNull then [] else toString x) xs)"
    unfolding map_map comp_def
    by (rule firstThrow_map_Inr) (simp add: JArr)
  then show ?case by simp
qed simp_all

lemma plus_x_embed [simp]: "plus_x s (embed v) = Inr (s @ toString v)"
  by (simp add: plus_x_def)

lemma looseEqLit_x_embed [simp]: "looseEqLit_x (embed v) l = Inr (looseEqLit v l)"
proof (cases v)
  case (JArr xs)
  have "toString_x (embed (JArr xs)) = Inr (toString (JArr xs))"
    by (rule toString_x_embed)
  then show ?thesis
    using JArr by (simp del: toString_x_embed)
qed simp_all

lemma embedPhoto_fields [simp]:
  "url (embedPhoto q) = url q" "scope (embedPhoto q) = scope q"
  "id_field (embedPhoto q) = embed (id_field q)"
  "username (embedPhoto q) = embed (username q)"
  "category (embedPhoto q) = embed (category q)"
  "collection (embedPhoto q) = embed (collection q)"
  "keywords_field (embedPhoto q) = embed (keywords_field q)"
  "randomizationInterval (embedPhoto q) = embed (randomizationInterval q)"
  "width (dimensions (embedPhoto q)) = embed (width (dimensions q))"
  "height (dimensions (embedPhoto q)) = embed (height (dimensions q))"
  by (simp_all add: embedPhoto_def)

lemma embedPhoto_updates [simp]:
  "(embedPhoto q)\<lparr>url := u\<rparr> = embedPhoto (q\<lparr>url := u\<rparr>)"
  "(embedPhoto q)\<lparr>randomizationInterval := embed v\<rparr>
     = embedPhoto (q\<lparr>randomizationInterval := v\<rparr>)"
  "(embedPhoto q)\<lparr>keywords_field := embed v\<rparr> = embedPhoto (q\<lparr>keywords_field := v\<rparr>)"
  by (simp_all add: embedPhoto_def)

lemma appendScope_x_embed:
  "appendScope_x (embedPhoto q) = (fst (appendScope q), embedPhoto (snd (appendScope q)))"
  by (simp add: appendScope_x_def appendScope_def Let_def)

lemma appendDimensions_x_embed:
  "appendDimensions_x (embedPhoto q)
     = Inr (fst (appendDimensions q), embedPhoto (snd (appendDimensions q)))"
  by (simp add: appendDimensions_x_def appendDimensions_def hasDimensions_x_def
        hasDimensions_def Let_def)

lemma appendRandomization_x_embed:
  "appendRandomization_x b (embedPhoto q)
     = Inr (fst (appendRandomization b q), embedPhoto (snd (appendRandomization b q)))"
  by (simp add: appendRandomization_x_def appendRandomization_def Let_def)

lemma appendKeywords_x_embed:
  "appendKeywords_x (embedPhoto q)
     = Inr (fst (appendKeywords q), embedPhoto (snd (appendKeywords q)))"
  by (simp add: appendKeywords_x_def appendKeywords_def Let_def)

lemma appendRest_x_embed:
  "appendRest_x b (embedPhoto q)
     = (let this2 = snd (appendScope q);
            this3 = snd (appendDimensions this2);
            this4 = snd (appendRandomization b this3);
            this5 = snd (appendKeywords this4)
        in Inr (url this5, embedPhoto this5))"
  by (simp add: appendRest_x_def andThen_def appendScope_x_embed appendDimensions_x_embed
        appendRandomization_x_embed appendKeywords_x_embed Let_def)

lemma fetch_x_embed:
  "fetch_x (embedPhoto q) = Inr (fst (fetch q), embedPhoto (snd (fetch q)))"
  by (simp add: fetch_x_def fetch_def appendRest_x_embed appendDimensions_x_embed andThen_def
        Let_def)

lemma randomize_x_embed:
  "randomize_x (embed v) (embedPhoto q) = Inr (embedPhoto (randomize v q))"
  by (cases "looseEqLit v (lit ''daily'')"; cases "looseEqLit v (lit ''weekly'')")
    (simp_all add: randomize_x_def randomize_def embedPhoto_def del: embedPhoto_updates)


lemma trimEach_x_embed: "trimEach_x (map embed ks) = trimEach ks"
proof (induction ks)
  case Nil
  show ?case by simp
next
  case (Cons k ks)
  then show ?case by (cases k) simp_all
qed

lemma keywordList_x_embed:
  "keywordList_x (embed k)
     = (case keywordList k of Inl e \<Rightarrow> Inl e | Inr ks \<Rightarrow> Inr (map embed ks))"
  by (cases k) (simp_all add: keywordList_x_def keywordList_def comp_def)

lemma embed_JStr: "AStr s = embed (JStr s)"
  by simp

lemma of_x_embed:
  "of_x (embed k) (embedPhoto p)
     = (case of_m k p of Inl (e, s) \<Rightarrow> Inl (e, embedPhoto s) | Inr s \<Rightarrow> Inr (embedPhoto s))"
  by (simp add: of_x_def of_m_def keywordList_x_embed trimEach_x_embed Let_def embed_JStr
        del: embed.simps split: sum.splits)

subsection \<open>The calls that throw\<close>

text \<open>
  Claim C8, amended. Three public methods can throw. The keyword setter throws a
  TypeError, leaving the object unchanged, when its argument is neither a string nor a
  list of strings (a value without \<^verbatim>\<open>split\<close>, or a list with an element without
  \<^verbatim>\<open>trim\<close>), and a URIError from \<^verbatim>\<open>encodeURI\<close>, after storing the joined keywords, when
  a token contains an unpaired surrogate. \<open>randomize\<close> throws exactly when its argument
  is an object, or an array with an element, whose conversion to a string throws.
  \<open>fetch\<close> throws exactly when a value that it converts does: the id or, without an
  id, the first truthy selector, if it is a symbol or such an object or array; a
  dimension of a truthy pair likewise; without an id also the interval in its
  comparison and truthy keywords. No other call throws. On data values (undefined,
  null, booleans, integers, strings and arrays of these) \<open>randomize\<close> and \<open>fetch\<close>
  return what the first part computes, and the keyword setter returns or throws as the
  first part says.
\<close>

theorem calls_that_throw:
  "((\<exists>e q'. invoke c q = Inl (e, q')) \<longleftrightarrow>
      (case c of
         Of kws \<Rightarrow>
           (case keywordTokens_x kws of
              None \<Rightarrow> True
            | Some ts \<Rightarrow> list_ex hasUnpairedSurrogate ts)
       | Randomize interval \<Rightarrow> incomparable interval
       | Fetch \<Rightarrow> fetchThrows q
       | _ \<Rightarrow> False))
   \<and> (of_x kws q = Inl (e, q') \<longleftrightarrow>
        (case keywordTokens_x kws of
           None \<Rightarrow> e = TypeError \<and> q' = q
         | Some ts \<Rightarrow>
             list_ex hasUnpairedSurrogate ts \<and> e = URIError
             \<and> q' = q\<lparr>keywords_field := AStr (joinWith (lit '','') (map trim ts))\<rparr>))
   \<and> (keywordTokens_x k = None \<longleftrightarrow>
        (case k of
           AStr s \<Rightarrow> False
         | AArr ks \<Rightarrow> list_ex (\<lambda>x. asString_x x = None) ks
         | _ \<Rightarrow> True))
   \<and> randomize_x (embed v) (embedPhoto p) = Inr (embedPhoto (randomize v p))
   \<and> fetch_x (embedPhoto p) = Inr (fst (fetch p), embedPhoto (snd (fetch p)))
   \<and> of_x (embed v) (embedPhoto p)
       = (case of_m v p of
            Inl (e, s) \<Rightarrow> Inl (e, embedPhoto s)
          | Inr s \<Rightarrow> Inr (embedPhoto s))"
proof (intro conjI)
  show "(\<exists>e q'. invoke c q = Inl (e, q')) \<longleftrightarrow>
      (case c of
         Of kws \<Rightarrow>
           (case keywordTokens_x kws of
              None \<Rightarrow> True
            | Some ts \<Rightarrow> list_ex hasUnpairedSurrogate ts)
       | Randomize interval \<Rightarrow> incomparable interval
       | Fetch \<Rightarrow> fetchThrows q
       | _ \<Rightarrow> False)"
  proof (cases c)
    case (Randomize interval)
    then show ?thesis by (simp add: randomize_x_throws)
  next
    case (Of kws)
    then show ?thesis by (simp add: of_x_throws)
  next
    case Fetch
    have "(\<exists>e q'. invoke Fetch q = Inl (e, q')) \<longleftrightarrow> (\<exists>x. fetch_x q = Inl x)"
      by (cases "fetch_x q") auto
    also have "\<dots> \<longleftrightarrow> fetchThrows q"
      by (rule fetch_x_throws)
    finally show ?thesis
      using Fetch by simp
  qed simp_all
  show "of_x kws q = Inl (e, q') \<longleftrightarrow>
        (case keywordTokens_x kws of
           None \<Rightarrow> e = TypeError \<and> q' = q
         | Some ts \<Rightarrow>
             list_ex hasUnpairedSurrogate ts \<and> e = URIError
             \<and> q' = q\<lparr>keywords_field := AStr (joinWith (lit '','') (map trim ts))\<rparr>)"
    by (rule of_x_raises_iff)
  show "keywordTokens_x k = None \<longleftrightarrow>
        (case k of
           AStr s \<Rightarrow> False
         | AArr ks \<Rightarrow> list_ex (\<lambda>x. asString_x x = None) ks
         | _ \<Rightarrow> True)"
    by (rule keywordTokens_x_None_iff)
  show "randomize_x (embed v) (embedPhoto p) = Inr (embedPhoto (randomize v p))"
    by (rule randomize_x_embed)
  show "fetch_x (embedPhoto p) = Inr (fst (fetch p), embedPhoto (snd (fetch p)))"
    by (rule fetch_x_embed)
  show "of_x (embed v) (embedPhoto p)
       = (case of_m v p of
            Inl (e, s) \<Rightarrow> Inl (e, embedPhoto s)
          | Inr s \<Rightarrow> Inr (embedPhoto s))"
    by (rule of_x_embed)
qed

theorem calls_that_throw_witness:
  "invoke (Of (ANum (SafeInt 5))) new_UnsplashPhoto_x = Inl (TypeError, new_UnsplashPhoto_x)
   \<and> invoke (Of (AArr [AStr (lit ''a''), ANull])) new_UnsplashPhoto_x
       = Inl (TypeError, new_UnsplashPhoto_x)
   \<and> invoke (Of (AStr [0xDC00])) new_UnsplashPhoto_x
       = Inl (URIError, new_UnsplashPhoto_x\<lparr>keywords_field := AStr [0xDC00]\<rparr>)
   \<and> (\<exists>e q'. invoke (Randomize (AArr [ASymbol])) new_UnsplashPhoto_x = Inl (e, q'))
   \<and> (\<exists>e q'. invoke Fetch (fromUser_x (AObject (Inl TypeError)) new_UnsplashPhoto_x)
                = Inl (e, q'))
   \<and> invoke (Randomize ASymbol) new_UnsplashPhoto_x \<noteq> Inl (TypeError, new_UnsplashPhoto_x)
   \<and> invoke Fetch (width_x ASymbol new_UnsplashPhoto_x)
       \<noteq> Inl (TypeError, width_x ASymbol new_UnsplashPhoto_x)
   \<and> invoke (Size ASymbol ASymbol) new_UnsplashPhoto_x \<noteq> Inl (TypeError, new_UnsplashPhoto_x)"
proof -
  have t: "keywordTokens_x (ANum (SafeInt 5)) = None"
    "keywordTokens_x (AArr [AStr (lit ''a''), ANull]) = None"
    "keywordTokens_x (AStr [0xDC00]) = Some [[0xDC00]]"
    "list_ex hasUnpairedSurrogate [[0xDC00]]"
    "joinWith (lit '','') (map trim [[0xDC00]]) = [0xDC00]"
    by (simp_all add: keywordTokens_x_def asString_x_def isTrailSurrogate_def trim_def
          isWhiteSpace_def)
  have f: "fetchThrows (fromUser_x (AObject (Inl TypeError)) new_UnsplashPhoto_x)"
    "\<not> fetchThrows (width_x ASymbol new_UnsplashPhoto_x)"
    by (simp_all add: fetchThrows_def selectorThrows_def dimensionsThrow_def keywordsThrow_def
          hasDimensions_x_def fromUser_x_def width_x_def new_UnsplashPhoto_x_def)
  from calls_that_throw
      [where c = "Of (ANum (SafeInt 5))" and q = new_UnsplashPhoto_x and kws = "ANum (SafeInt 5)"
         and e = TypeError and q' = new_UnsplashPhoto_x] t
  have a: "invoke (Of (ANum (SafeInt 5))) new_UnsplashPhoto_x
      = Inl (TypeError, new_UnsplashPhoto_x)"
    by simp
  from calls_that_throw
      [where c = "Of (AArr [AStr (lit ''a''), ANull])" and q = new_UnsplashPhoto_x
         and kws = "AArr [AStr (lit ''a''), ANull]"
         and e = TypeError and q' = new_UnsplashPhoto_x] t
  have b: "invoke (Of (AArr [AStr (lit ''a''), ANull])) new_UnsplashPhoto_x
      = Inl (TypeError, new_UnsplashPhoto_x)"
    by simp
  from calls_that_throw
      [where c = "Of (AStr [0xDC00])" and q = new_UnsplashPhoto_x and kws = "AStr [0xDC00]"
         and e = URIError
         and q' = "new_UnsplashPhoto_x\<lparr>keywords_field := AStr [0xDC00]\<rparr>"] t
  have c: "invoke (Of (AStr [0xDC00])) new_UnsplashPhoto_x
      = Inl (URIError, new_UnsplashPhoto_x\<lparr>keywords_field := AStr [0xDC00]\<rparr>)"
    by simp
  from calls_that_throw
      [where c = "Randomize (AArr [ASymbol])" and q = new_UnsplashPhoto_x]
  have d: "\<exists>e q'. invoke (Randomize (AArr [ASymbol])) new_UnsplashPhoto_x = Inl (e, q')"
    by simp
  from calls_that_throw
      [where c = Fetch and q = "fromUser_x (AObject (Inl TypeError)) new_UnsplashPhoto_x"] f
  have e: "\<exists>e q'. invoke Fetch (fromUser_x (AObject (Inl TypeError)) new_UnsplashPhoto_x)
      = Inl (e, q')"
    by simp
  from calls_that_throw
      [where c = "Randomize ASymbol" and q = new_UnsplashPhoto_x]
  have g: "invoke (Randomize ASymbol) new_UnsplashPhoto_x
      \<noteq> Inl (TypeError, new_UnsplashPhoto_x)"
    by simp
  from calls_that_throw
      [where c = Fetch and q = "width_x ASymbol new_UnsplashPhoto_x"] f
  have h: "invoke Fetch (width_x ASymbol new_UnsplashPhoto_x)
      \<noteq> Inl (TypeError, width_x ASymbol new_UnsplashPhoto_x)"
    by simp
  from calls_that_throw
      [where c = "Size ASymbol ASymbol" and q = new_UnsplashPhoto_x]
  have i: "invoke (Size ASymbol ASymbol) new_UnsplashPhoto_x
      \<noteq> Inl (TypeError, new_UnsplashPhoto_x)"
    by simp
  from a b c d e g h i show ?thesis by blast
qed

text \<open>
  The claim as stated fails in four ways. The keyword setter throws for a string and
  for a list: \<^verbatim>\<open>of("\uD800")\<close> throws a URIError and \<^verbatim>\<open>of([1])\<close> a TypeError. \<open>fetch\<close>
  throws a TypeError after \<^verbatim>\<open>find(Symbol())\<close>, and \<open>randomize\<close> throws the TypeError of
  the conversion of an object that has neither \<^verbatim>\<open>toString\<close> nor \<^verbatim>\<open>valueOf\<close>.
\<close>

theorem keyword_setter_raises_counterexample:
  "of_m (JStr [0xD800]) new_UnsplashPhoto
     = Inl (URIError, new_UnsplashPhoto\<lparr>keywords_field := JStr [0xD800]\<rparr>)
   \<and> of_m (JArr [JNum (SafeInt 1)]) new_UnsplashPhoto = Inl (TypeError, new_UnsplashPhoto)
   \<and> fetch_x (find_x ASymbol new_UnsplashPhoto_x)
       = Inl (TypeError, find_x ASymbol new_UnsplashPhoto_x)
   \<and> randomize_x (AObject (Inl TypeError)) new_UnsplashPhoto_x
       = Inl (TypeError, new_UnsplashPhoto_x)"
  by (simp add: of_m_def keywordList_def trim_def isWhiteSpace_def lit_def
        uriUnescapedSet_def isLeadSurrogate_def isTrailSurrogate_def
        fetch_x_def find_x_def new_UnsplashPhoto_x_def plus_x_def randomize_x_def)

section \<open>The size shorthand\<close>

text \<open>
  Claim C9. For a positive safe integer \<open>w\<close>, \<^verbatim>\<open>size(w)\<close> with the height omitted sets width
  and height to \<open>w\<close>; the URL of a following \<open>fetch\<close> contains \<^verbatim>\<open>/<w>x<w>\<close>, and
  without a selector it is the root, the scope segment, \<^verbatim>\<open>/<w>x<w>\<close>, the randomization
  segment and the keyword segment.
\<close>

theorem size_single_argument_square:
  "0 < intOf w \<longrightarrow>
     dimensions (size_m (JNum w) JUndefined q) = \<lparr>width = JNum w, height = JNum w\<rparr>
     \<and> sublist (lit ''/'' @ numberToString w @ lit ''x'' @ numberToString w)
         (fst (fetch (size_m (JNum w) JUndefined q)))
     \<and> (\<not> truthy (id_field q) \<and> \<not> truthy (username q) \<and> \<not> truthy (category q)
          \<and> \<not> truthy (collection q) \<longrightarrow>
         fst (fetch (size_m (JNum w) JUndefined q))
           = url q @ scopeSegment q
               @ (lit ''/'' @ numberToString w @ lit ''x'' @ numberToString w)
               @ randomizationSegment True q @ keywordSegment q)"
proof (intro impI conjI)
  assume w: "0 < intOf w"
  let ?q = "size_m (JNum w) JUndefined q"
  let ?seg = "lit ''/'' @ numberToString w @ lit ''x'' @ numberToString w"
  show "dimensions ?q = \<lparr>width = JNum w, height = JNum w\<rparr>"
    by (simp add: size_m_def)
  have seg: "dimensionSegment ?q = ?seg"
    using w by (simp add: size_m_def dimensionSegment_def)
  have "\<exists>pre post. serialization ?q = pre @ dimensionSegment ?q @ post"
  proof -
    have "serialization ?q
      = (if truthy (id_field ?q) then lit ''/'' @ toString (id_field ?q)
         else if truthy (username ?q) then lit ''/user/'' @ toString (username ?q) @ scopeSegment ?q
         else if truthy (category ?q) then lit ''/category/'' @ toString (category ?q) @ scopeSegment ?q
         else if truthy (collection ?q) then lit ''/collection/'' @ toString (collection ?q) @ scopeSegment ?q
         else scopeSegment ?q) @ dimensionSegment ?q @
        (if truthy (id_field ?q) then []
         else if truthy (username ?q) \<or> truthy (category ?q) \<or> truthy (collection ?q)
         then randomizationSegment False ?q @ keywordSegment ?q
         else randomizationSegment True ?q @ keywordSegment ?q)"
      by (simp add: serialization_def idBranch_def selectorBranch_def noSelectorBranch_def)
    then show ?thesis by blast
  qed
  then obtain pre post where "fst (fetch ?q) = (url ?q @ pre) @ ?seg @ post"
    using seg by (auto simp add: fst_fetch)
  then show "sublist ?seg (fst (fetch ?q))"
    by (metis sublist_appendI)
  assume "\<not> truthy (id_field q) \<and> \<not> truthy (username q) \<and> \<not> truthy (category q)
          \<and> \<not> truthy (collection q)"
  then show "fst (fetch ?q) = url q @ scopeSegment q @ ?seg
               @ randomizationSegment True q @ keywordSegment q"
    using seg [symmetric]
    by (simp add: fst_fetch serialization_def noSelectorBranch_def)
      (simp add: size_m_def scopeSegment_def randomizationSegment_def keywordSegment_def)
qed

theorem size_single_argument_square_witness:
  "0 < intOf (SafeInt 400)
   \<and> dimensions (size_m (JNum (SafeInt 400)) JUndefined new_UnsplashPhoto)
       = \<lparr>width = JNum (SafeInt 400), height = JNum (SafeInt 400)\<rparr>
   \<and> sublist (lit ''/400x400'') (fst (fetch (size_m (JNum (SafeInt 400)) JUndefined new_UnsplashPhoto)))
   \<and> fst (fetch (size_m (JNum (SafeInt 400)) JUndefined new_UnsplashPhoto))
       = lit ''https://source.unsplash.com/400x400/random''"
proof -
  have h: "0 < intOf (SafeInt 400)"
    "\<not> truthy (id_field new_UnsplashPhoto) \<and> \<not> truthy (username new_UnsplashPhoto)
      \<and> \<not> truthy (category new_UnsplashPhoto) \<and> \<not> truthy (collection new_UnsplashPhoto)"
    by (simp_all add: new_UnsplashPhoto_def)
  have e: "lit ''/'' @ numberToString (SafeInt 400) @ lit ''x'' @ numberToString (SafeInt 400) = lit ''/400x400''"
    "url new_UnsplashPhoto @ scopeSegment new_UnsplashPhoto @ lit ''/400x400''
       @ randomizationSegment True new_UnsplashPhoto @ keywordSegment new_UnsplashPhoto
     = lit ''https://source.unsplash.com/400x400/random''"
    by (simp_all add: eval_defs)
  from size_single_argument_square [of "SafeInt 400" new_UnsplashPhoto] h
  have "dimensions (size_m (JNum (SafeInt 400)) JUndefined new_UnsplashPhoto)
        = \<lparr>width = JNum (SafeInt 400), height = JNum (SafeInt 400)\<rparr>"
    and "sublist (lit ''/'' @ numberToString (SafeInt 400) @ lit ''x'' @ numberToString (SafeInt 400))
        (fst (fetch (size_m (JNum (SafeInt 400)) JUndefined new_UnsplashPhoto)))"
    and "fst (fetch (size_m (JNum (SafeInt 400)) JUndefined new_UnsplashPhoto))
        = url new_UnsplashPhoto @ scopeSegment new_UnsplashPhoto
            @ (lit ''/'' @ numberToString (SafeInt 400) @ lit ''x'' @ numberToString (SafeInt 400))
            @ randomizationSegment True new_UnsplashPhoto @ keywordSegment new_UnsplashPhoto"
    by blast+
  with h(1) show ?thesis
    by (simp add: e)
qed

section \<open>Falsy selectors\<close>

text \<open>
  Claim C10. A falsy selector value is skipped by the dispatch of \<open>fetch\<close>: after
  \<^verbatim>\<open>find\<close> with a falsy argument (zero, the empty string, \<^verbatim>\<open>undefined\<close>) the URL is
  that of the first truthy selector among username, category and collection, or of the
  branch without selector; likewise after \<^verbatim>\<open>fromUser\<close>, \<^verbatim>\<open>fromCategory\<close> or
  \<^verbatim>\<open>fromCollection\<close> with a falsy argument \<open>fetch\<close> returns what it returns when that
  selector was never set.
\<close>

theorem falsy_selector_falls_through:
  "\<not> truthy v \<longrightarrow>
     fst (fetch (find_m v q)) = url q @
        (if truthy (username q) then selectorBranch (lit ''/user/'') (username q) q
         else if truthy (category q) then selectorBranch (lit ''/category/'') (category q) q
         else if truthy (collection q) then
           selectorBranch (lit ''/collection/'') (collection q) q
         else noSelectorBranch q)
     \<and> fst (fetch (find_m v q)) = fst (fetch (q\<lparr>id_field := JUndefined\<rparr>))
     \<and> fst (fetch (fromUser v q)) = fst (fetch (q\<lparr>username := JUndefined\<rparr>))
     \<and> fst (fetch (fromCategory v q)) = fst (fetch (q\<lparr>category := JUndefined\<rparr>))
     \<and> fst (fetch (fromCollection v q)) = fst (fetch (q\<lparr>collection := JUndefined\<rparr>))"
  by (simp add: fst_fetch find_m_def fromUser_def fromCategory_def fromCollection_def
        serialization_def idBranch_def selectorBranch_def
        noSelectorBranch_def scopeSegment_def randomizationSegment_def keywordSegment_def
        dimensionSegment_def)

theorem falsy_selector_falls_through_witness:
  "\<not> truthy (JNum (SafeInt 0)) \<and> \<not> truthy (JStr [])
   \<and> fst (fetch (find_m (JNum (SafeInt 0)) new_UnsplashPhoto)) = lit ''https://source.unsplash.com/random''
   \<and> fst (fetch (find_m (JNum (SafeInt 0)) (fromUser (JStr (lit ''bob'')) new_UnsplashPhoto)))
       = lit ''https://source.unsplash.com/user/bob''
   \<and> fst (fetch (fromUser (JStr []) (fromCategory (JStr (lit ''nature'')) new_UnsplashPhoto)))
       = fst (fetch (fromCategory (JStr (lit ''nature'')) new_UnsplashPhoto))"
proof -
  let ?U = "fromUser (JStr (lit ''bob'')) new_UnsplashPhoto"
  let ?C = "fromCategory (JStr (lit ''nature'')) new_UnsplashPhoto"
  have h: "\<not> truthy (JNum (SafeInt 0))" "\<not> truthy (JStr [])"
    by simp_all
  have v: "url new_UnsplashPhoto @ noSelectorBranch new_UnsplashPhoto
      = lit ''https://source.unsplash.com/random''"
    "truthy (username ?U)"
    "url ?U @ selectorBranch (lit ''/user/'') (username ?U) ?U
      = lit ''https://source.unsplash.com/user/bob''"
    "\<not> truthy (username new_UnsplashPhoto)" "\<not> truthy (category new_UnsplashPhoto)"
    "\<not> truthy (collection new_UnsplashPhoto)"
    "?C\<lparr>username := JUndefined\<rparr> = ?C"
    by (simp_all add: eval_defs)
  from falsy_selector_falls_through [of "JNum (SafeInt 0)" new_UnsplashPhoto] h(1) v(4,5,6)
  have a: "fst (fetch (find_m (JNum (SafeInt 0)) new_UnsplashPhoto))
      = url new_UnsplashPhoto @ noSelectorBranch new_UnsplashPhoto"
    by simp
  from falsy_selector_falls_through [of "JNum (SafeInt 0)" ?U] h(1) v(2)
  have b: "fst (fetch (find_m (JNum (SafeInt 0)) ?U))
      = url ?U @ selectorBranch (lit ''/user/'') (username ?U) ?U"
    by simp
  from falsy_selector_falls_through [of "JStr []" ?C] h(2)
  have c: "fst (fetch (fromUser (JStr []) ?C)) = fst (fetch (?C\<lparr>username := JUndefined\<rparr>))"
    by simp
  from h a b c show ?thesis
    by (simp add: v)
qed

end
